theory Spec2Isabelle
  imports Complex_Main "HOL-Library.Log_Nat" "HOL-Library.AList" "HOL-Library.Multiset"
begin

section \<open>JavaScript values used by \<open>src/index.js\<close>\<close>

text \<open>
  The program reads three CSV files through the \<open>csv-parser\<close> package, which hands every
  data line to a callback as an object of strings. It parses two of the columns with
  \<open>parseInt\<close> and \<open>parseFloat\<close>, keeps the numbers in \<open>Set\<close>s stored in plain objects,
  sorts them, and formats one of them with \<open>toFixed(2)\<close>. This section models these
  built-ins.

  Strings are lists of characters with codes below 256. A Number is \<open>NaN\<close>, an infinity or
  a finite value, held as the rational it denotes; \<open>round_double\<close> rounds a rational to
  the nearest binary64 value, so the finite values that parsing produces are exactly the
  doubles. (For a numeral of more than 20 significant digits the language lets an engine
  round less exactly; the model always rounds to the nearest.) The two zeros are one value
  \<open>Fin 0\<close>: the program stores its numbers in a \<open>Set\<close> (which turns \<open>-0\<close> into \<open>+0\<close>) or
  uses them as property keys (both are the key \<open>"0"\<close>), and \<open>toFixed\<close> prints both as
  \<open>0.00\<close>.
\<close>

datatype jsnum = NaN | NegInf | Fin rat | PosInf

definition isWhiteSpace :: "char \<Rightarrow> bool" where
  "isWhiteSpace c = (of_char c \<in> {9::int, 10, 11, 12, 13, 32, 160})"

definition isDigit :: "char \<Rightarrow> bool" where
  "isDigit c = (48 \<le> (of_char c :: int) \<and> (of_char c :: int) \<le> 57)"

definition isHexDigit :: "char \<Rightarrow> bool" where
  "isHexDigit c = (isDigit c \<or> (65 \<le> (of_char c :: int) \<and> (of_char c :: int) \<le> 70)
     \<or> (97 \<le> (of_char c :: int) \<and> (of_char c :: int) \<le> 102))"

definition digitValue :: "char \<Rightarrow> int" where
  "digitValue c = (let n = of_char c in
     if n \<le> 57 then n - 48 else if n \<le> 70 then n - 55 else n - 87)"

text \<open>The value of a digit string in radix \<open>r\<close>, most significant digit first.\<close>

definition digitsValue :: "int \<Rightarrow> string \<Rightarrow> int" where
  "digitsValue r ds = foldl (\<lambda>acc c. acc * r + digitValue c) 0 ds"

definition pow2 :: "int \<Rightarrow> rat" where
  "pow2 k = (if 0 \<le> k then 2 ^ nat k else 1 / 2 ^ nat (- k))"

definition pow10 :: "int \<Rightarrow> rat" where
  "pow10 k = (if 0 \<le> k then 10 ^ nat k else 1 / 10 ^ nat (- k))"

text \<open>\<open>ilog2 q\<close> is the integer \<open>e\<close> with \<open>2^e \<le> q < 2^(e+1)\<close>, for \<open>q > 0\<close>.\<close>

definition ilog2 :: "rat \<Rightarrow> int" where
  "ilog2 q = (case quotient_of q of (a, b) \<Rightarrow>
     let d = bitlen a - bitlen b in if pow2 d \<le> q then d else d - 1)"

definition round_half_even :: "rat \<Rightarrow> int" where
  "round_half_even q = (let f = \<lfloor>q\<rfloor>; r = q - of_int f in
     if r < 1 / 2 then f else if 1 / 2 < r then f + 1 else if even f then f else f + 1)"

text \<open>
  Rounding to binary64, ties to even: the magnitude becomes \<open>m * 2^e\<close> with
  \<open>m \<le> 2^53\<close> and least exponent \<open>-1074\<close> (subnormals); it overflows to an infinity
  when it reaches \<open>2^1024 = 2^53 * 2^971\<close>.
\<close>

definition round_double :: "rat \<Rightarrow> jsnum" where
  "round_double q = (if q = 0 then Fin 0 else
     let a = \<bar>q\<bar>;
         e = max (- 1074) (ilog2 a - 52);
         m = round_half_even (a / pow2 e)
     in if 971 < e \<or> (e = 971 \<and> 2 ^ 53 \<le> m) then (if q < 0 then NegInf else PosInf)
        else Fin (if q < 0 then - (of_int m * pow2 e) else of_int m * pow2 e))"

subsection \<open>\<open>parseInt(string)\<close> and \<open>parseFloat(string)\<close>\<close>

text \<open>
  \<open>parseInt\<close> with no radix: leading white space is skipped, a sign is read, a prefix
  \<open>0x\<close> or \<open>0X\<close> selects radix 16, and the longest run of digits is the value; no digit
  gives \<open>NaN\<close>. Whatever follows the digits is ignored.
\<close>

definition parseInt :: "string \<Rightarrow> jsnum" where
  "parseInt inputString =
     (let S = dropWhile isWhiteSpace inputString;
          neg = (take 1 S = ''-'');
          S = (if take 1 S = ''-'' \<or> take 1 S = ''+'' then drop 1 S else S);
          hex = (take 2 S = ''0x'' \<or> take 2 S = ''0X'');
          Z = (if hex then takeWhile isHexDigit (drop 2 S) else takeWhile isDigit S);
          mathInt = digitsValue (if hex then 16 else 10) Z
      in if Z = [] then NaN
         else round_double (if neg then - of_int mathInt else of_int mathInt))"

text \<open>
  \<open>parseFloat\<close>: the longest prefix of the trimmed string that is a decimal literal
  (\<open>Infinity\<close>, or digits with an optional fraction and an optional exponent), rounded to
  a double; \<open>NaN\<close> when there is none.
\<close>

definition exponentPart :: "string \<Rightarrow> int" where
  "exponentPart s =
     (if take 1 s = ''e'' \<or> take 1 s = ''E'' then
        (let t = drop 1 s in
         if take 1 t = ''-'' then - digitsValue 10 (takeWhile isDigit (drop 1 t))
         else if take 1 t = ''+'' then digitsValue 10 (takeWhile isDigit (drop 1 t))
         else digitsValue 10 (takeWhile isDigit t))
      else 0)"

definition parseFloat :: "string \<Rightarrow> jsnum" where
  "parseFloat inputString =
     (let t = dropWhile isWhiteSpace inputString;
          neg = (take 1 t = ''-'');
          u = (if take 1 t = ''-'' \<or> take 1 t = ''+'' then drop 1 t else t)
      in if take 8 u = ''Infinity'' then (if neg then NegInf else PosInf)
         else
          (let ip = takeWhile isDigit u;
               r1 = dropWhile isDigit u;
               fp = (if take 1 r1 = ''.'' then takeWhile isDigit (drop 1 r1) else []);
               r2 = (if take 1 r1 = ''.'' then dropWhile isDigit (drop 1 r1) else r1);
               mv = of_int (digitsValue 10 (ip @ fp)) * pow10 (exponentPart r2 - int (length fp))
           in if ip = [] \<and> fp = [] then NaN
              else round_double (if neg then - mv else mv)))"

subsection \<open>\<open>Number.prototype.toFixed(2)\<close>\<close>

definition digitChar :: "int \<Rightarrow> char" where
  "digitChar d = char_of (48 + d)"

function decimalDigits :: "int \<Rightarrow> string" where
  "decimalDigits n =
     (if n < 10 then [digitChar n] else decimalDigits (n div 10) @ [digitChar (n mod 10)])"
  by pat_completeness auto
termination
  by (relation "measure nat") auto

declare decimalDigits.simps [simp del]

text \<open>
  From \<open>10^21\<close> on \<open>toFixed\<close> answers with the Number's ordinary string, which is in
  exponent notation there: the shortest digit string \<open>s\<close> (of \<open>k\<close> digits) such that
  \<open>s * 10^(n-k)\<close> rounds to the number, taken nearest to it. Seventeen digits always
  suffice for a double.
\<close>

fun shortestDigits :: "nat \<Rightarrow> rat \<Rightarrow> int \<Rightarrow> int \<Rightarrow> int \<times> int" where
  "shortestDigits 0 a n k = (\<lfloor>a / pow10 (n - k) + 1 / 2\<rfloor>, n - k)"
| "shortestDigits (Suc fuel) a n k =
     (let s = \<lfloor>a / pow10 (n - k) + 1 / 2\<rfloor> in
      if round_double (of_int s * pow10 (n - k)) = Fin a then (s, n - k)
      else shortestDigits fuel a n (k + 1))"

definition stripZeros :: "string \<Rightarrow> string" where
  "stripZeros ds = rev (dropWhile (\<lambda>c. c = CHR ''0'') (rev ds))"

definition exponential :: "rat \<Rightarrow> string" where
  "exponential a =
     (case shortestDigits 16 a (int (length (decimalDigits \<lfloor>a\<rfloor>))) 1 of (s, t) \<Rightarrow>
        let ds = decimalDigits s;
            e = decimalDigits (t + int (length ds) - 1);
            ms = stripZeros ds
        in if length ms = 1 then ms @ ''e+'' @ e
           else take 1 ms @ ''.'' @ drop 1 ms @ ''e+'' @ e)"

definition toFixed2 :: "jsnum \<Rightarrow> string" where
  "toFixed2 x =
     (case x of
        NaN \<Rightarrow> ''NaN''
      | PosInf \<Rightarrow> ''Infinity''
      | NegInf \<Rightarrow> ''-Infinity''
      | Fin q \<Rightarrow>
          (let s = (if q < 0 then ''-'' else []);
               a = \<bar>q\<bar>
           in if pow10 21 \<le> a then s @ exponential a
              else
               (let n = \<lfloor>a * 100 + 1 / 2\<rfloor>;
                    m = decimalDigits n;
                    m = (if length m \<le> 2 then replicate (3 - length m) (CHR ''0'') @ m else m)
                in s @ take (length m - 2) m @ ''.'' @ drop (length m - 2) m)))"

subsection \<open>\<open>Array.prototype.sort((a, b) => a - b)\<close>\<close>

text \<open>
  The sort reads only the sign of what the comparator returns, and takes \<open>NaN\<close> as
  \<open>0\<close>. \<open>compareFn a b\<close> is that sign for \<open>a - b\<close>: the difference of two doubles has
  the sign of the exact difference, \<open>Infinity - Infinity\<close> is \<open>NaN\<close>, and so is every
  difference with a \<open>NaN\<close>.
\<close>

fun compareFn :: "jsnum \<Rightarrow> jsnum \<Rightarrow> int" where
  "compareFn NaN b = 0"
| "compareFn a NaN = 0"
| "compareFn PosInf PosInf = 0"
| "compareFn PosInf b = 1"
| "compareFn NegInf NegInf = 0"
| "compareFn NegInf b = - 1"
| "compareFn (Fin p) PosInf = - 1"
| "compareFn (Fin p) NegInf = 1"
| "compareFn (Fin p) (Fin q) = (if p < q then - 1 else if q < p then 1 else 0)"

text \<open>
  The sort is stable, and where the comparator is a consistent ordering of the array the
  language fixes its result: the elements in ascending order, those that compare equal in
  the order they had. \<open>insort_by\<close> inserts by that rule, and a sort by insertion computes
  the result.
\<close>

fun insort_by :: "jsnum \<Rightarrow> jsnum list \<Rightarrow> jsnum list" where
  "insort_by x [] = [x]"
| "insort_by x (y # ys) = (if compareFn x y \<le> 0 then x # y # ys else y # insort_by x ys)"

text \<open>
  \<open>a - b\<close> is a consistent ordering of numbers unless a \<open>NaN\<close> stands among them: it
  compares equal to two numbers that do not compare equal. The order is then the engine's.
  Node runs V8, which since version 7.0 (Node 11) sorts with TimSort, in
  \<open>third_party/v8/builtins/array-sort.tq\<close>. The definitions below follow that file macro by
  macro, over lists: the range of the work array that a macro is given is a list, a pending
  run is the list of its elements, and \<open>minGallop\<close> of the sort state is passed along.
  \<open>Compare\<close> is the comparator with \<open>NaN\<close> taken as \<open>0\<close>.
\<close>

function ComputeMinRunLength_loop :: "nat \<Rightarrow> nat \<Rightarrow> nat" where
  "ComputeMinRunLength_loop n r =
     (if 64 \<le> n then ComputeMinRunLength_loop (n div 2) (max r (n mod 2)) else n + r)"
  by pat_completeness auto
termination
  by (relation "measure fst") auto

declare ComputeMinRunLength_loop.simps [simp del]

definition ComputeMinRunLength :: "nat \<Rightarrow> nat" where
  "ComputeMinRunLength n = ComputeMinRunLength_loop n 0"

text \<open>
  \<open>CountAndMakeRun\<close> measures the run that starts the list, ascending or strictly descending,
  and reverses a descending one.
\<close>

fun runTail :: "('a \<Rightarrow> 'a \<Rightarrow> int) \<Rightarrow> bool \<Rightarrow> 'a \<Rightarrow> 'a list \<Rightarrow> nat" where
  "runTail Compare isDescending previousElement [] = 0"
| "runTail Compare isDescending previousElement (currentElement # rest) =
     (if (if isDescending then 0 \<le> Compare currentElement previousElement
          else Compare currentElement previousElement < 0)
      then 0
      else Suc (runTail Compare isDescending currentElement rest))"

definition CountAndMakeRun :: "('a \<Rightarrow> 'a \<Rightarrow> int) \<Rightarrow> 'a list \<Rightarrow> nat \<times> 'a list" where
  "CountAndMakeRun Compare xs =
     (case xs of
        [] \<Rightarrow> (0, xs)
      | [x] \<Rightarrow> (1, xs)
      | elementHigh # elementLow # rest \<Rightarrow>
          (let isDescending = (Compare elementLow elementHigh < 0);
               runLength = 2 + runTail Compare isDescending elementLow rest
           in (runLength,
               if isDescending then rev (take runLength xs) @ drop runLength xs else xs)))"

text \<open>
  \<open>bsearch\<close> is the binary search that ends \<open>BinaryInsertionSort\<close>, \<open>GallopLeft\<close> and
  \<open>GallopRight\<close>; \<open>goRight\<close> tells for a midpoint whether the search goes on right of it.
\<close>

function bsearch :: "(nat \<Rightarrow> bool) \<Rightarrow> nat \<Rightarrow> nat \<Rightarrow> nat" where
  "bsearch goRight left right =
     (if left < right then
        (if goRight (left + (right - left) div 2)
         then bsearch goRight (Suc (left + (right - left) div 2)) right
         else bsearch goRight left (left + (right - left) div 2))
      else right)"
  by pat_completeness auto
termination
  by (relation "measure (\<lambda>(goRight, left, right). right - left)") auto

declare bsearch.simps [simp del]

fun BinaryInsertionSort_loop :: "('a \<Rightarrow> 'a \<Rightarrow> int) \<Rightarrow> nat \<Rightarrow> nat \<Rightarrow> 'a list \<Rightarrow> 'a list" where
  "BinaryInsertionSort_loop Compare 0 start ys = ys"
| "BinaryInsertionSort_loop Compare (Suc n) start ys =
     (let pivot = ys ! start;
          left = bsearch (\<lambda>mid. \<not> Compare pivot (ys ! mid) < 0) 0 start
      in BinaryInsertionSort_loop Compare n (Suc start)
           (take left (take start ys) @ [pivot] @ drop left (take start ys) @ drop (Suc start) ys))"

definition BinaryInsertionSort :: "('a \<Rightarrow> 'a \<Rightarrow> int) \<Rightarrow> nat \<Rightarrow> 'a list \<Rightarrow> 'a list" where
  "BinaryInsertionSort Compare startArg ys =
     (let start = (if startArg = 0 then 1 else startArg)
      in BinaryInsertionSort_loop Compare (length ys - start) start ys)"

text \<open>
  \<open>gallop\<close> is the first loop of \<open>GallopLeft\<close> and \<open>GallopRight\<close>: the offset goes 1, 3, 7,
  ... until \<open>stop\<close> holds of it or it reaches \<open>maxOfs\<close>.
\<close>

function gallop :: "(nat \<Rightarrow> bool) \<Rightarrow> nat \<Rightarrow> nat \<Rightarrow> nat \<Rightarrow> nat \<times> nat" where
  "gallop stop maxOfs lastOfs offset =
     (if offset < maxOfs then
        (if stop offset then (lastOfs, offset) else gallop stop maxOfs offset (2 * offset + 1))
      else (lastOfs, offset))"
  by pat_completeness auto
termination
  by (relation "measure (\<lambda>(stop, maxOfs, lastOfs, offset). maxOfs - offset)") auto

declare gallop.simps [simp del]

definition GallopLeft :: "('a \<Rightarrow> 'a \<Rightarrow> int) \<Rightarrow> 'a list \<Rightarrow> 'a \<Rightarrow> nat \<Rightarrow> nat" where
  "GallopLeft Compare array key hint =
     (if Compare (array ! hint) key < 0 then
        (case gallop (\<lambda>offset. 0 \<le> Compare (array ! (hint + offset)) key) (length array - hint) 0 1 of
           (lastOfs, offset) \<Rightarrow>
             bsearch (\<lambda>m. Compare (array ! m) key < 0)
               (lastOfs + hint + 1) (min offset (length array - hint) + hint))
      else
        (case gallop (\<lambda>offset. Compare (array ! (hint - offset)) key < 0) (hint + 1) 0 1 of
           (lastOfs, offset) \<Rightarrow>
             bsearch (\<lambda>m. Compare (array ! m) key < 0)
               (hint + 1 - min offset (hint + 1)) (hint - lastOfs)))"

definition GallopRight :: "('a \<Rightarrow> 'a \<Rightarrow> int) \<Rightarrow> 'a list \<Rightarrow> 'a \<Rightarrow> nat \<Rightarrow> nat" where
  "GallopRight Compare array key hint =
     (if Compare key (array ! hint) < 0 then
        (case gallop (\<lambda>offset. 0 \<le> Compare key (array ! (hint - offset))) (hint + 1) 0 1 of
           (lastOfs, offset) \<Rightarrow>
             bsearch (\<lambda>m. \<not> Compare key (array ! m) < 0)
               (hint + 1 - min offset (hint + 1)) (hint - lastOfs))
      else
        (case gallop (\<lambda>offset. Compare key (array ! (hint + offset)) < 0) (length array - hint) 0 1 of
           (lastOfs, offset) \<Rightarrow>
             bsearch (\<lambda>m. \<not> Compare key (array ! m) < 0)
               (lastOfs + hint + 1) (min offset (length array - hint) + hint)))"

text \<open>
  The other \<open>while\<close> loops are turns of \<open>loop\<close>: a body stops with a result, \<open>Inl\<close>, or
  goes on with a new state, \<open>Inr\<close>. Every turn of a merge moves an element, and every turn
  of a collapse merges two runs, so the number of elements, or of runs, is fuel enough.

  \<open>MergeLow\<close> merges the runs \<open>A\<close> and \<open>B\<close> from the left, for a run \<open>A\<close> not longer
  than \<open>B\<close>, \<open>MergeHigh\<close> from the right. The state of a merge is the mode (one pair at a
  time, or galloping), the wins of \<open>A\<close> and of \<open>B\<close> in a row, \<open>minGallop\<close>, the elements
  merged so far, and what is left of \<open>A\<close> and of \<open>B\<close>.
\<close>

fun loop :: "nat \<Rightarrow> ('s \<Rightarrow> 'r + 's) \<Rightarrow> ('s \<Rightarrow> 'r) \<Rightarrow> 's \<Rightarrow> 'r" where
  "loop 0 body stop s = stop s"
| "loop (Suc fuel) body stop s =
     (case body s of Inl r \<Rightarrow> r | Inr s' \<Rightarrow> loop fuel body stop s')"

type_synonym 'a merge_state = "bool \<times> nat \<times> nat \<times> nat \<times> 'a list \<times> 'a list \<times> 'a list"

definition MergeLow_straight :: "('a \<Rightarrow> 'a \<Rightarrow> int) \<Rightarrow> nat \<Rightarrow> nat \<Rightarrow> nat \<Rightarrow> 'a list \<Rightarrow> 'a list \<Rightarrow> 'a list
    \<Rightarrow> ('a list \<times> nat) + 'a merge_state" where
  "MergeLow_straight Compare nofWinsA nofWinsB minGallop out A B =
     (case (A, B) of
        (a # as, b # bs) \<Rightarrow>
          if Compare b a < 0 then
            (if bs = [] then Inl (out @ [b] @ A, minGallop)
             else if minGallop \<le> nofWinsB + 1
             then Inr (True, 0, nofWinsB + 1, minGallop + 1, out @ [b], A, bs)
             else Inr (False, 0, nofWinsB + 1, minGallop, out @ [b], A, bs))
          else
            (if length as = 1 then Inl (out @ [a] @ B @ as, minGallop)
             else if minGallop \<le> nofWinsA + 1
             then Inr (True, nofWinsA + 1, 0, minGallop + 1, out @ [a], as, B)
             else Inr (False, nofWinsA + 1, 0, minGallop, out @ [a], as, B))
      | _ \<Rightarrow> Inl (out @ A @ B, minGallop))"

definition kMinGallopWins :: nat where
  "kMinGallopWins = 7"

definition MergeLow_gallop :: "('a \<Rightarrow> 'a \<Rightarrow> int) \<Rightarrow> nat \<Rightarrow> 'a list \<Rightarrow> 'a list \<Rightarrow> 'a list
    \<Rightarrow> ('a list \<times> nat) + 'a merge_state" where
  "MergeLow_gallop Compare minGallop0 out A B =
     (let minGallop = max 1 (minGallop0 - 1) in
      case B of
        [] \<Rightarrow> Inl (out @ A, minGallop)
      | b # bs \<Rightarrow>
          (let nofWinsA = GallopRight Compare A b 0;
               out1 = out @ take nofWinsA A;
               A1 = drop nofWinsA A
           in if 0 < nofWinsA \<and> length A1 = 1 then Inl (out1 @ B @ A1, minGallop)
              else if 0 < nofWinsA \<and> A1 = [] then Inl (out1 @ B, minGallop)
              else if bs = [] then Inl (out1 @ [b] @ A1, minGallop)
              else
               (case A1 of
                  [] \<Rightarrow> Inl (out1 @ B, minGallop)
                | a # as \<Rightarrow>
                    (let nofWinsB = GallopLeft Compare bs a 0;
                         out3 = out1 @ [b] @ take nofWinsB bs;
                         B2 = drop nofWinsB bs
                     in if 0 < nofWinsB \<and> B2 = [] then Inl (out3 @ A1, minGallop)
                        else if length as = 1 then Inl (out3 @ [a] @ B2 @ as, minGallop)
                        else if kMinGallopWins \<le> nofWinsA \<or> kMinGallopWins \<le> nofWinsB
                        then Inr (True, nofWinsA, nofWinsB, minGallop, out3 @ [a], as, B2)
                        else Inr (False, 0, 0, minGallop + 1, out3 @ [a], as, B2)))))"

definition MergeLow_body :: "('a \<Rightarrow> 'a \<Rightarrow> int) \<Rightarrow> 'a merge_state \<Rightarrow> ('a list \<times> nat) + 'a merge_state" where
  "MergeLow_body Compare = (\<lambda>(galloping, nofWinsA, nofWinsB, minGallop, out, A, B).
     if galloping then MergeLow_gallop Compare minGallop out A B
     else MergeLow_straight Compare nofWinsA nofWinsB minGallop out A B)"

definition MergeLow :: "('a \<Rightarrow> 'a \<Rightarrow> int) \<Rightarrow> 'a list \<Rightarrow> 'a list \<Rightarrow> nat \<Rightarrow> 'a list \<times> nat" where
  "MergeLow Compare A B minGallop =
     (case B of
        [] \<Rightarrow> (A, minGallop)
      | b # bs \<Rightarrow>
          if bs = [] then (b # A, minGallop)
          else if length A = 1 then (b # bs @ A, minGallop)
          else loop (length A + length bs) (MergeLow_body Compare)
                 (\<lambda>(galloping, nofWinsA, nofWinsB, minGallop, out, A, B). (out @ A @ B, minGallop))
                 (False, 0, 0, minGallop, [b], A, bs))"

definition MergeHigh_straight :: "('a \<Rightarrow> 'a \<Rightarrow> int) \<Rightarrow> nat \<Rightarrow> nat \<Rightarrow> nat \<Rightarrow> 'a list \<Rightarrow> 'a list \<Rightarrow> 'a list
    \<Rightarrow> ('a list \<times> nat) + 'a merge_state" where
  "MergeHigh_straight Compare nofWinsA nofWinsB minGallop out A B =
     (if A = [] \<or> B = [] then Inl (A @ B @ out, minGallop)
      else if Compare (last B) (last A) < 0 then
        (if butlast A = [] then Inl (B @ last A # out, minGallop)
         else if minGallop \<le> nofWinsA + 1
         then Inr (True, nofWinsA + 1, 0, minGallop + 1, last A # out, butlast A, B)
         else Inr (False, nofWinsA + 1, 0, minGallop, last A # out, butlast A, B))
      else
        (if length (butlast B) = 1 then Inl (butlast B @ A @ last B # out, minGallop)
         else if minGallop \<le> nofWinsB + 1
         then Inr (True, 0, nofWinsB + 1, minGallop + 1, last B # out, A, butlast B)
         else Inr (False, 0, nofWinsB + 1, minGallop, last B # out, A, butlast B)))"

definition MergeHigh_gallop :: "('a \<Rightarrow> 'a \<Rightarrow> int) \<Rightarrow> nat \<Rightarrow> 'a list \<Rightarrow> 'a list \<Rightarrow> 'a list
    \<Rightarrow> ('a list \<times> nat) + 'a merge_state" where
  "MergeHigh_gallop Compare minGallop0 out A B =
     (let minGallop = max 1 (minGallop0 - 1) in
      if A = [] \<or> B = [] then Inl (A @ B @ out, minGallop)
      else
       (let k = GallopRight Compare A (last B) (length A - 1);
            nofWinsA = length A - k;
            out1 = drop k A @ out;
            A1 = take k A
        in if 0 < nofWinsA \<and> A1 = [] then Inl (B @ out1, minGallop)
           else
            (let B1 = butlast B;
                 out2 = last B # out1
             in if length B1 = 1 then Inl (B1 @ A1 @ out2, minGallop)
                else if A1 = [] \<or> B1 = [] then Inl (A1 @ B1 @ out2, minGallop)
                else
                 (let k2 = GallopLeft Compare B1 (last A1) (length B1 - 1);
                      nofWinsB = length B1 - k2;
                      out3 = drop k2 B1 @ out2;
                      B2 = take k2 B1
                  in if 0 < nofWinsB \<and> length B2 = 1 then Inl (B2 @ A1 @ out3, minGallop)
                     else if 0 < nofWinsB \<and> B2 = [] then Inl (A1 @ out3, minGallop)
                     else if butlast A1 = [] then Inl (B2 @ last A1 # out3, minGallop)
                     else if kMinGallopWins \<le> nofWinsA \<or> kMinGallopWins \<le> nofWinsB
                     then Inr (True, nofWinsA, nofWinsB, minGallop, last A1 # out3, butlast A1, B2)
                     else Inr (False, 0, 0, minGallop + 1, last A1 # out3, butlast A1, B2)))))"

definition MergeHigh_body :: "('a \<Rightarrow> 'a \<Rightarrow> int) \<Rightarrow> 'a merge_state \<Rightarrow> ('a list \<times> nat) + 'a merge_state" where
  "MergeHigh_body Compare = (\<lambda>(galloping, nofWinsA, nofWinsB, minGallop, out, A, B).
     if galloping then MergeHigh_gallop Compare minGallop out A B
     else MergeHigh_straight Compare nofWinsA nofWinsB minGallop out A B)"

definition MergeHigh :: "('a \<Rightarrow> 'a \<Rightarrow> int) \<Rightarrow> 'a list \<Rightarrow> 'a list \<Rightarrow> nat \<Rightarrow> 'a list \<times> nat" where
  "MergeHigh Compare A B minGallop =
     (if A = [] then (B, minGallop)
      else if butlast A = [] then (B @ A, minGallop)
      else if length B = 1 then (B @ A, minGallop)
      else loop (length A + length B) (MergeHigh_body Compare)
             (\<lambda>(galloping, nofWinsA, nofWinsB, minGallop, out, A, B). (A @ B @ out, minGallop))
             (False, 0, 0, minGallop, [last A], butlast A, B))"

text \<open>
  \<open>mergeRuns\<close> is the body of \<open>MergeAt\<close>: the elements of \<open>A\<close> that are in place before
  \<open>B\<close> starts, and those of \<open>B\<close> in place after \<open>A\<close> ends, stay out of the merge.
\<close>

definition mergeRuns :: "('a \<Rightarrow> 'a \<Rightarrow> int) \<Rightarrow> 'a list \<Rightarrow> 'a list \<Rightarrow> nat \<Rightarrow> 'a list \<times> nat" where
  "mergeRuns Compare A B minGallop =
     (if A = [] \<or> B = [] then (A @ B, minGallop)
      else
       (let k = GallopRight Compare A (hd B) 0;
            A2 = drop k A
        in if A2 = [] then (A @ B, minGallop)
           else
            (let lengthB = GallopLeft Compare B (last A2) (length B - 1);
                 B1 = take lengthB B
             in if lengthB = 0 then (A @ B, minGallop)
                else
                 (case (if length A2 \<le> length B1 then MergeLow Compare A2 B1 minGallop
                        else MergeHigh Compare A2 B1 minGallop) of
                    (merged, minGallop') \<Rightarrow> (take k A @ merged @ drop lengthB B, minGallop')))))"

definition MergeAt :: "('a \<Rightarrow> 'a \<Rightarrow> int) \<Rightarrow> nat \<Rightarrow> 'a list list \<times> nat \<Rightarrow> 'a list list \<times> nat" where
  "MergeAt Compare i = (\<lambda>(pendingRuns, minGallop).
     if Suc i < length pendingRuns then
       (case mergeRuns Compare (pendingRuns ! i) (pendingRuns ! Suc i) minGallop of
          (merged, minGallop') \<Rightarrow>
            (take i pendingRuns @ [merged] @ drop (i + 2) pendingRuns, minGallop'))
     else (pendingRuns, minGallop))"

definition RunInvariantEstablished :: "'a list list \<Rightarrow> nat \<Rightarrow> bool" where
  "RunInvariantEstablished pendingRuns n =
     (n < 2 \<or> length (pendingRuns ! n) + length (pendingRuns ! (n - 1))
              < length (pendingRuns ! (n - 2)))"

definition MergeCollapse_body :: "('a \<Rightarrow> 'a \<Rightarrow> int) \<Rightarrow> 'a list list \<times> nat
    \<Rightarrow> ('a list list \<times> nat) + ('a list list \<times> nat)" where
  "MergeCollapse_body Compare = (\<lambda>(pendingRuns, minGallop).
     if 1 < length pendingRuns then
       (let n = length pendingRuns - 2 in
        if \<not> RunInvariantEstablished pendingRuns (n + 1) \<or> \<not> RunInvariantEstablished pendingRuns n
        then Inr (MergeAt Compare
                   (if length (pendingRuns ! (n - 1)) < length (pendingRuns ! (n + 1)) then n - 1 else n)
                   (pendingRuns, minGallop))
        else if length (pendingRuns ! n) \<le> length (pendingRuns ! (n + 1))
        then Inr (MergeAt Compare n (pendingRuns, minGallop))
        else Inl (pendingRuns, minGallop))
     else Inl (pendingRuns, minGallop))"

definition MergeCollapse :: "('a \<Rightarrow> 'a \<Rightarrow> int) \<Rightarrow> 'a list list \<times> nat \<Rightarrow> 'a list list \<times> nat" where
  "MergeCollapse Compare state = loop (length (fst state)) (MergeCollapse_body Compare) id state"

definition MergeForceCollapse_body :: "('a \<Rightarrow> 'a \<Rightarrow> int) \<Rightarrow> 'a list list \<times> nat
    \<Rightarrow> ('a list list \<times> nat) + ('a list list \<times> nat)" where
  "MergeForceCollapse_body Compare = (\<lambda>(pendingRuns, minGallop).
     if 1 < length pendingRuns then
       (let n = length pendingRuns - 2 in
        Inr (MergeAt Compare
              (if 0 < n \<and> length (pendingRuns ! (n - 1)) < length (pendingRuns ! (n + 1))
               then n - 1 else n)
              (pendingRuns, minGallop)))
     else Inl (pendingRuns, minGallop))"

definition MergeForceCollapse :: "('a \<Rightarrow> 'a \<Rightarrow> int) \<Rightarrow> 'a list list \<times> nat \<Rightarrow> 'a list list \<times> nat" where
  "MergeForceCollapse Compare state =
     loop (length (fst state)) (MergeForceCollapse_body Compare) id state"

text \<open>
  \<open>ArrayTimSortImpl\<close>: a run shorter than the minimal run length is extended by binary
  insertion, pushed on the pending runs, and these are merged while the run invariant
  fails; at the end all of them are merged.
\<close>

definition ArrayTimSort_body :: "('a \<Rightarrow> 'a \<Rightarrow> int) \<Rightarrow> nat \<Rightarrow> ('a list list \<times> nat) \<times> 'a list
    \<Rightarrow> ('a list list \<times> nat) + (('a list list \<times> nat) \<times> 'a list)" where
  "ArrayTimSort_body Compare minRunLength = (\<lambda>((pendingRuns, minGallop), remaining).
     if remaining = [] then Inl (pendingRuns, minGallop)
     else
      (case CountAndMakeRun Compare remaining of
         (currentRunLength, made) \<Rightarrow>
           (let forcedRunLength = min minRunLength (length remaining);
                array = (if currentRunLength < minRunLength
                         then BinaryInsertionSort Compare currentRunLength (take forcedRunLength made)
                              @ drop forcedRunLength made
                         else made);
                runLength = (if currentRunLength < minRunLength then forcedRunLength
                             else currentRunLength)
            in Inr (MergeCollapse Compare (pendingRuns @ [take runLength array], minGallop),
                    drop runLength array))))"

definition ArrayTimSort :: "('a \<Rightarrow> 'a \<Rightarrow> int) \<Rightarrow> 'a list \<Rightarrow> 'a list" where
  "ArrayTimSort Compare array =
     (if length array < 2 then array
      else concat (fst (MergeForceCollapse Compare
             (loop (Suc (length array)) (ArrayTimSort_body Compare (ComputeMinRunLength (length array)))
                (\<lambda>((pendingRuns, minGallop), remaining). (pendingRuns @ [remaining], minGallop))
                (([], kMinGallopWins), array)))))"

text \<open>
  The sort of the program. An array without \<open>NaN\<close> has the order that the language
  fixes; one with a \<open>NaN\<close> has the order that TimSort leaves.
\<close>

definition Array_sort :: "jsnum list \<Rightarrow> jsnum list" where
  "Array_sort xs = (if NaN \<in> set xs then ArrayTimSort compareFn xs else foldr insort_by xs [])"

text \<open>What the loops of the sort keep: the elements at hand.\<close>

definition merge_inv :: "'a multiset \<Rightarrow> 'a merge_state \<Rightarrow> bool" where
  "merge_inv M = (\<lambda>(galloping, nofWinsA, nofWinsB, minGallop, out, A, B).
     mset out + mset A + mset B = M)"

definition runs_inv :: "'a multiset \<Rightarrow> 'a list list \<times> nat \<Rightarrow> bool" where
  "runs_inv M state = (mset (concat (fst state)) = M)"

definition sort_inv :: "'a multiset \<Rightarrow> ('a list list \<times> nat) \<times> 'a list \<Rightarrow> bool" where
  "sort_inv M = (\<lambda>(state, remaining). mset (concat (fst state)) + mset remaining = M)"

text \<open>
  \<open>finishes fuel body s\<close>: started in \<open>s\<close>, the loop stops by its body within \<open>fuel\<close>
  turns. What bounds the turns of a merge is the number of elements left in the two runs.
\<close>

fun finishes :: "nat \<Rightarrow> ('s \<Rightarrow> 'r + 's) \<Rightarrow> 's \<Rightarrow> bool" where
  "finishes 0 body s = False"
| "finishes (Suc fuel) body s = (case body s of Inl r \<Rightarrow> True | Inr s' \<Rightarrow> finishes fuel body s')"

definition merge_size :: "'a merge_state \<Rightarrow> nat" where
  "merge_size = (\<lambda>(galloping, nofWinsA, nofWinsB, minGallop, out, A, B). length A + length B)"

subsection \<open>\<open>Set\<close> and plain objects\<close>

text \<open>
  A \<open>Set\<close> is the list of its members in insertion order, without repetition; membership
  is by value (\<open>NaN\<close> equals \<open>NaN\<close>).
\<close>

definition Set_add :: "'a \<Rightarrow> 'a list \<Rightarrow> 'a list" where
  "Set_add x s = (if x \<in> set s then s else s @ [x])"

text \<open>
  A plain object \<open>{}\<close> is the list of its own properties in creation order
  (\<open>AList.update\<close> replaces the value of a key in place and appends a new key). Its
  prototype is \<open>Object.prototype\<close>, so reading a key that is not an own property finds
  the member of \<open>Object.prototype\<close> of that name, if there is one.
\<close>

definition Object_prototype :: "string list" where
  "Object_prototype =
     [''constructor'', ''__defineGetter__'', ''__defineSetter__'', ''hasOwnProperty'',
      ''__lookupGetter__'', ''__lookupSetter__'', ''isPrototypeOf'',
      ''propertyIsEnumerable'', ''toString'', ''valueOf'', ''__proto__'',
      ''toLocaleString'']"

datatype 'v property = Undefined | Inherited | Own 'v

definition getProperty :: "(string \<times> 'v) list \<Rightarrow> string \<Rightarrow> 'v property" where
  "getProperty obj k =
     (case map_of obj k of
        Some v \<Rightarrow> Own v
      | None \<Rightarrow> if k \<in> set Object_prototype then Inherited else Undefined)"

text \<open>
  Assigning a primitive to \<open>__proto__\<close> calls the setter of \<open>Object.prototype\<close>, which
  ignores it; every other key becomes or stays an own property.
\<close>

definition setProperty :: "(string \<times> 'v) list \<Rightarrow> string \<Rightarrow> 'v \<Rightarrow> (string \<times> 'v) list" where
  "setProperty obj k v = (if k = ''__proto__'' then obj else AList.update k v obj)"

text \<open>
  \<open>Object.entries\<close> lists the keys that are array indices (canonical decimal numerals
  below \<open>2^32 - 1\<close>) first, in ascending numeric order, and then the other keys in
  creation order.
\<close>

definition isArrayIndex :: "string \<Rightarrow> bool" where
  "isArrayIndex k =
     (k \<noteq> [] \<and> list_all isDigit k \<and> (k = ''0'' \<or> take 1 k \<noteq> ''0'')
      \<and> digitsValue 10 k < 4294967295)"

definition Object_entries :: "(string \<times> 'v) list \<Rightarrow> (string \<times> 'v) list" where
  "Object_entries obj =
     sort_key (\<lambda>(k, v). digitsValue 10 k) (filter (\<lambda>(k, v). isArrayIndex k) obj)
     @ filter (\<lambda>(k, v). \<not> isArrayIndex k) obj"

fun join :: "string \<Rightarrow> string list \<Rightarrow> string" where
  "join sep [] = []"
| "join sep [x] = x"
| "join sep (x # y # ys) = x @ sep @ join sep (y # ys)"

section \<open>The program\<close>

subsection \<open>Files, console and failures\<close>

text \<open>
  A row is what \<open>csv-parser\<close> passes to the \<open>data\<close> listener: the cells of one line under
  the names of the header. The program reads four of them. (A column that is missing
  reads as \<open>undefined\<close>, which every use below treats as the string \<open>''undefined''\<close>.)
\<close>

record row =
  zipcode :: string
  metal_level :: string
  rate :: string
  rate_area :: string

text \<open>
  Reading a path through \<open>fs.createReadStream(filePath).pipe(csv())\<close> delivers some rows
  and then ends in one of three ways: \<open>end\<close>; an \<open>error\<close> event of the parser stream, which
  is the stream \<open>parseCSV\<close> listens to, so the promise is rejected; or an \<open>error\<close> event of
  the file stream (a missing or unreadable file), which has no listener, so Node raises it
  as an uncaught exception and the process ends. An exception thrown by a \<open>data\<close>
  listener is uncaught as well.
\<close>

datatype ending = End | ParserError string | ReadError string

record source =
  rows :: "row list"
  ending :: ending

datatype failure = Rejected string | Uncaught string

record world =
  disk :: "string \<Rightarrow> source"
  written :: "string \<rightharpoonup> string"
  stdout :: "string list"
  stderr :: "string list"

definition console_log :: "string \<Rightarrow> world \<Rightarrow> world" where
  "console_log line w = w\<lparr>stdout := stdout w @ [line]\<rparr>"

definition console_error :: "string \<Rightarrow> world \<Rightarrow> world" where
  "console_error line w = w\<lparr>stderr := stderr w @ [line]\<rparr>"

definition paths_plans :: string where "paths_plans = ''./slcsp/plans.csv''"
definition paths_zips :: string where "paths_zips = ''./slcsp/zips.csv''"
definition paths_slcp :: string where "paths_slcp = ''./slcsp/slcsp.csv''"
definition paths_output :: string where "paths_output = ''./slcsp/slcsp_complete.csv''"

subsection \<open>\<open>parseCSV\<close>\<close>

text \<open>
  Lines 67 to 76. \<open>processRow\<close> is run on each row in turn with the object \<open>data\<close>, which
  starts empty (\<open>feed\<close> is the \<open>data\<close> listener at work); the promise resolves with
  \<open>data\<close> at \<open>end\<close>. The world is passed along because a callback may write to the
  console.
\<close>

fun feed :: "(row \<Rightarrow> 'd \<times> world \<Rightarrow> failure + 'd \<times> world) \<Rightarrow> row list \<Rightarrow> 'd \<times> world
    \<Rightarrow> (failure + 'd) \<times> world" where
  "feed processRow [] (data, w) = (Inr data, w)"
| "feed processRow (r # rs) (data, w) =
     (case processRow r (data, w) of
        Inl e \<Rightarrow> (Inl e, w)
      | Inr s \<Rightarrow> feed processRow rs s)"

definition parseCSV :: "string \<Rightarrow> (row \<Rightarrow> ('k \<times> 'v) list \<times> world \<Rightarrow> failure + ('k \<times> 'v) list \<times> world)
    \<Rightarrow> world \<Rightarrow> (failure + ('k \<times> 'v) list) \<times> world" where
  "parseCSV filePath processRow w =
     (case feed processRow (rows (disk w filePath)) ([], w) of
        (Inl e, w') \<Rightarrow> (Inl e, w')
      | (Inr data, w') \<Rightarrow>
          (case ending (disk w filePath) of
             End \<Rightarrow> (Inr data, w')
           | ParserError e \<Rightarrow> (Inl (Rejected e), w')
           | ReadError e \<Rightarrow> (Inl (Uncaught e), w')))"

subsection \<open>\<open>parsePlans\<close>, \<open>parseZips\<close>, \<open>preprocessPlanRates\<close>\<close>

text \<open>
  \<open>parsePlans\<close>, lines 34 to 47; \<open>parsePlans_row\<close> is its callback. The keys of the plan
  object are the strings of the numbers \<open>parseInt\<close> returns. The string of a number
  determines the number and is never the name of a member of \<open>Object.prototype\<close>, so this
  object is keyed by the numbers themselves.
\<close>

definition parsePlans_row :: "row \<Rightarrow> (jsnum \<times> jsnum list) list \<Rightarrow> (jsnum \<times> jsnum list) list" where
  "parsePlans_row r data =
     (if metal_level r = ''Silver'' then
        (let area = parseInt (rate_area r);
             parsedRate = parseFloat (rate r);
             data = (if map_of data area = None then AList.update area [] data else data)
         in AList.update area (Set_add parsedRate (the (map_of data area))) data)
      else data)"

definition parsePlans :: "string \<Rightarrow> world \<Rightarrow> (failure + (jsnum \<times> jsnum list) list) \<times> world" where
  "parsePlans filePath = parseCSV filePath (\<lambda>r (data, w). Inr (parsePlans_row r data, w))"

text \<open>
  \<open>parseZips\<close>, lines 52 to 62. The key is the ZIP code as it stands. If it names a member
  of \<open>Object.prototype\<close>, \<open>data[zipcode]\<close> is that member, no \<open>Set\<close> is created, and
  calling its \<open>add\<close> throws.
\<close>

definition parseZips_row :: "row \<Rightarrow> (string \<times> jsnum list) list \<Rightarrow> failure + (string \<times> jsnum list) list" where
  "parseZips_row r data =
     (let area = parseInt (rate_area r) in
      case getProperty data (zipcode r) of
        Undefined \<Rightarrow> Inr (AList.update (zipcode r) (Set_add area []) data)
      | Own s \<Rightarrow> Inr (AList.update (zipcode r) (Set_add area s) data)
      | Inherited \<Rightarrow> Inl (Uncaught ''TypeError: data[zipcode].add is not a function''))"

definition parseZips :: "string \<Rightarrow> world \<Rightarrow> (failure + (string \<times> jsnum list) list) \<times> world" where
  "parseZips filePath =
     parseCSV filePath (\<lambda>r (data, w). map_sum id (\<lambda>d. (d, w)) (parseZips_row r data))"

text \<open>\<open>preprocessPlanRates\<close>, lines 82 to 86: every \<open>Set\<close> becomes its sorted array.\<close>

definition preprocessPlanRates :: "(jsnum \<times> jsnum list) list \<Rightarrow> (jsnum \<times> jsnum list) list" where
  "preprocessPlanRates planData = map (\<lambda>(key, s). (key, Array_sort s)) planData"

subsection \<open>\<open>processSLCSP\<close>\<close>

text \<open>
  Lines 95 to 112. \<open>slcsp_rate\<close> is the rate of one request row (lines 99 to 107 of the
  callback); \<open>None\<close> is the value \<open>-1\<close> that the program keeps for "no rate". A member of
  \<open>Object.prototype\<close> read from the ZIP object has no \<open>size\<close>, so it counts as no \<open>Set\<close> of
  one rate area.
\<close>

definition slcsp_rate :: "(jsnum \<times> jsnum list) list \<Rightarrow> (string \<times> jsnum list) list \<Rightarrow> string
    \<Rightarrow> string option" where
  "slcsp_rate planData zipData z =
     (case getProperty zipData z of
        Own rateAreas \<Rightarrow>
          (if length rateAreas = 1 then
             (case map_of planData (hd rateAreas) of
                Some rates \<Rightarrow> if 1 < length rates then Some (toFixed2 (rates ! 1)) else None
              | None \<Rightarrow> None)
           else None)
      | Inherited \<Rightarrow> None
      | Undefined \<Rightarrow> None)"

text \<open>The field \<open>rate === -1 ? '' : rate\<close> of a log line and of an output row.\<close>

definition rate_field :: "string option \<Rightarrow> string" where
  "rate_field r = (case r of None \<Rightarrow> [] | Some s \<Rightarrow> s)"

definition processSLCSP_row :: "(jsnum \<times> jsnum list) list \<Rightarrow> (string \<times> jsnum list) list \<Rightarrow> row
    \<Rightarrow> (string \<times> string option) list \<times> world \<Rightarrow> failure + (string \<times> string option) list \<times> world" where
  "processSLCSP_row planData zipData r = (\<lambda>(data, w).
     (let r' = slcsp_rate planData zipData (zipcode r)
      in Inr (setProperty data (zipcode r) r',
              console_log (zipcode r @ '', '' @ rate_field r') w)))"

definition processSLCSP :: "string \<Rightarrow> (jsnum \<times> jsnum list) list \<Rightarrow> (string \<times> jsnum list) list \<Rightarrow> world
    \<Rightarrow> (failure + (string \<times> string option) list) \<times> world" where
  "processSLCSP filePath planData zipData w =
     parseCSV filePath (processSLCSP_row planData zipData) (console_log ''zipcode, rate'' w)"

subsection \<open>\<open>writeCSVFile\<close> and \<open>main\<close>\<close>

text \<open>
  \<open>writeCSVFile\<close>, lines 117 to 126; \<open>csvContent\<close> is the text it builds. The write itself is
  taken to succeed.
\<close>

definition csvContent :: "(string \<times> string option) list \<Rightarrow> string" where
  "csvContent data =
     (let header = ''zipcode,rate'';
          rows = map (\<lambda>(zipcode, rate). zipcode @ '','' @ rate_field rate) (Object_entries data)
      in join [CHR 0x0A] (header # rows))"

definition writeCSVFile :: "(string \<times> string option) list \<Rightarrow> string \<Rightarrow> world \<Rightarrow> world" where
  "writeCSVFile data filePath w =
     console_log (''CSV file has been created at '' @ filePath)
       (w\<lparr>written := (written w)(filePath \<mapsto> csvContent data)\<rparr>)"

text \<open>
  \<open>main\<close>, lines 11 to 29. A rejected promise is caught and printed with \<open>console.error\<close>;
  an uncaught exception is printed by Node as the process ends. Either way nothing more
  is done.
\<close>

fun abort :: "failure \<Rightarrow> world \<Rightarrow> world" where
  "abort (Rejected e) w = console_error (''Error in main process: '' @ e) w"
| "abort (Uncaught e) w = console_error e w"

definition main :: "world \<Rightarrow> world" where
  "main w =
     (case parsePlans paths_plans w of
        (Inl e, w1) \<Rightarrow> abort e w1
      | (Inr silverPlanData, w1) \<Rightarrow>
     (case parseZips paths_zips w1 of
        (Inl e, w2) \<Rightarrow> abort e w2
      | (Inr zipRateAreaData, w2) \<Rightarrow>
     (let planData = preprocessPlanRates silverPlanData in
      case processSLCSP paths_slcp planData zipRateAreaData w2 of
        (Inl e, w3) \<Rightarrow> abort e w3
      | (Inr slcspData, w3) \<Rightarrow> writeCSVFile slcspData paths_output w3)))"

section \<open>Notions of the specification\<close>

text \<open>
  The rate area index of the specification maps a rate area to the set of distinct Silver
  rates of the plan rows of that area; the ZIP locality index maps a ZIP code to the set
  of rate areas of the ZIP rows with that code. Both are read off the input rows here,
  with the numbers as the program parses them.
\<close>

definition silver_rates :: "row list \<Rightarrow> jsnum \<Rightarrow> jsnum set" where
  "silver_rates plans a =
     set (map (\<lambda>r. parseFloat (rate r))
            (filter (\<lambda>r. metal_level r = ''Silver'' \<and> parseInt (rate_area r) = a) plans))"

definition zip_areas :: "row list \<Rightarrow> string \<Rightarrow> jsnum set" where
  "zip_areas zips z =
     set (map (\<lambda>r. parseInt (rate_area r)) (filter (\<lambda>r. zipcode r = z) zips))"

text \<open>The order of the numbers; \<open>NaN\<close> is neither below nor above anything.\<close>

fun less_num :: "jsnum \<Rightarrow> jsnum \<Rightarrow> bool" where
  "less_num (Fin p) (Fin q) = (p < q)"
| "less_num NegInf (Fin q) = True"
| "less_num NegInf PosInf = True"
| "less_num (Fin p) PosInf = True"
| "less_num a b = False"

text \<open>\<open>y\<close> is the second smallest member of \<open>S\<close>: exactly one member is below it.\<close>

definition second_smallest :: "jsnum set \<Rightarrow> jsnum \<Rightarrow> bool" where
  "second_smallest S y = (y \<in> S \<and> card {x \<in> S. less_num x y} = 1)"

text \<open>
  A decimal string with exactly two fraction digits: an optional minus sign, one or more
  digits, a point, two digits.
\<close>

definition two_fraction_digits :: "string \<Rightarrow> bool" where
  "two_fraction_digits s =
     (let u = (if take 1 s = ''-'' then drop 1 s else s);
          ip = take (length u - 3) u;
          fr = drop (length u - 3) u
      in 3 < length u \<and> list_all isDigit ip \<and> take 1 fr = ''.'' \<and> list_all isDigit (drop 1 fr))"

text \<open>
  The objects that \<open>parsePlans\<close>, \<open>parseZips\<close> and \<open>processSLCSP\<close> build from the rows of a
  file that is read to its end, and the lines that \<open>processSLCSP\<close> logs for them.
\<close>

definition members :: "('k \<times> 'v list) list \<Rightarrow> 'k \<Rightarrow> 'v list" where
  "members data k = (case map_of data k of None \<Rightarrow> [] | Some s \<Rightarrow> s)"

definition plansData :: "row list \<Rightarrow> (jsnum \<times> jsnum list) list \<Rightarrow> (jsnum \<times> jsnum list) list" where
  "plansData rs data = fold parsePlans_row rs data"

fun zipsData :: "row list \<Rightarrow> (string \<times> jsnum list) list \<Rightarrow> failure + (string \<times> jsnum list) list" where
  "zipsData [] data = Inr data"
| "zipsData (r # rs) data =
     (case parseZips_row r data of Inl e \<Rightarrow> Inl e | Inr data' \<Rightarrow> zipsData rs data')"

definition slcspData :: "(jsnum \<times> jsnum list) list \<Rightarrow> (string \<times> jsnum list) list \<Rightarrow> row list
    \<Rightarrow> (string \<times> string option) list \<Rightarrow> (string \<times> string option) list" where
  "slcspData planData zipData rs data =
     fold (\<lambda>r d. setProperty d (zipcode r) (slcsp_rate planData zipData (zipcode r))) rs data"

definition slcspLines :: "(jsnum \<times> jsnum list) list \<Rightarrow> (string \<times> jsnum list) list \<Rightarrow> row list
    \<Rightarrow> string list" where
  "slcspLines planData zipData rs =
     map (\<lambda>r. zipcode r @ '', '' @ rate_field (slcsp_rate planData zipData (zipcode r))) rs"

text \<open>
  What a run leaves in the output file, as a function of the three inputs alone: the
  failure that stops the run, or the text written.
\<close>

definition outcome :: "(string \<Rightarrow> source) \<Rightarrow> failure + string" where
  "outcome d =
     (case ending (d paths_plans) of
        ParserError e \<Rightarrow> Inl (Rejected e)
      | ReadError e \<Rightarrow> Inl (Uncaught e)
      | End \<Rightarrow>
     (case zipsData (rows (d paths_zips)) [] of
        Inl e \<Rightarrow> Inl e
      | Inr zipData \<Rightarrow>
     (case ending (d paths_zips) of
        ParserError e \<Rightarrow> Inl (Rejected e)
      | ReadError e \<Rightarrow> Inl (Uncaught e)
      | End \<Rightarrow>
     (case ending (d paths_slcp) of
        ParserError e \<Rightarrow> Inl (Rejected e)
      | ReadError e \<Rightarrow> Inl (Uncaught e)
      | End \<Rightarrow>
          Inr (csvContent (slcspData (preprocessPlanRates (plansData (rows (d paths_plans)) []))
                 zipData (rows (d paths_slcp)) []))))))"

subsection \<open>Example inputs\<close>

text \<open>
  The examples of the specification: rate area 7 with the Silver rates 200.00, 150.00,
  150.0 and 300.00, rate area 2 with the single Silver rate 250.00; ZIP 64148 in rate
  area 7 only, ZIP 00601 in rate areas 1 and 4, ZIP 10001 in rate area 2 only. The
  request asks for 64148, 00601, 10001 and 64148 again.
\<close>

definition example_plans :: "row list" where
  "example_plans =
     [\<lparr>zipcode = [], metal_level = ''Silver'', rate = ''200.00'', rate_area = ''7''\<rparr>,
      \<lparr>zipcode = [], metal_level = ''Silver'', rate = ''150.00'', rate_area = ''7''\<rparr>,
      \<lparr>zipcode = [], metal_level = ''Gold'', rate = ''100.00'', rate_area = ''7''\<rparr>,
      \<lparr>zipcode = [], metal_level = ''Silver'', rate = ''150.0'', rate_area = ''7''\<rparr>,
      \<lparr>zipcode = [], metal_level = ''silver'', rate = ''50.00'', rate_area = ''9''\<rparr>,
      \<lparr>zipcode = [], metal_level = ''Silver'', rate = ''300.00'', rate_area = ''7''\<rparr>,
      \<lparr>zipcode = [], metal_level = ''Silver'', rate = ''250.00'', rate_area = ''2''\<rparr>]"

definition example_zips :: "row list" where
  "example_zips =
     [\<lparr>zipcode = ''64148'', metal_level = [], rate = [], rate_area = ''7''\<rparr>,
      \<lparr>zipcode = ''00601'', metal_level = [], rate = [], rate_area = ''1''\<rparr>,
      \<lparr>zipcode = ''00601'', metal_level = [], rate = [], rate_area = ''4''\<rparr>,
      \<lparr>zipcode = ''10001'', metal_level = [], rate = [], rate_area = ''2''\<rparr>]"

definition example_request :: "row list" where
  "example_request =
     [\<lparr>zipcode = ''64148'', metal_level = [], rate = [], rate_area = []\<rparr>,
      \<lparr>zipcode = ''00601'', metal_level = [], rate = [], rate_area = []\<rparr>,
      \<lparr>zipcode = ''10001'', metal_level = [], rate = [], rate_area = []\<rparr>,
      \<lparr>zipcode = ''64148'', metal_level = [], rate = [], rate_area = []\<rparr>]"

definition no_file :: source where
  "no_file = \<lparr>rows = [], ending = ReadError ''ENOENT: no such file or directory''\<rparr>"

definition example_world :: world where
  "example_world =
     \<lparr>disk = (\<lambda>p. if p = paths_plans then \<lparr>rows = example_plans, ending = End\<rparr>
                 else if p = paths_zips then \<lparr>rows = example_zips, ending = End\<rparr>
                 else if p = paths_slcp then \<lparr>rows = example_request, ending = End\<rparr>
                 else no_file),
      written = Map.empty, stdout = [], stderr = []\<rparr>"

definition example_plan_index :: "(jsnum \<times> jsnum list) list" where
  "example_plan_index = [(Fin 7, [Fin 200, Fin 150, Fin 300]), (Fin 2, [Fin 250])]"

definition example_zip_index :: "(string \<times> jsnum list) list" where
  "example_zip_index = [(''64148'', [Fin 7]), (''00601'', [Fin 1, Fin 4]), (''10001'', [Fin 2])]"

text \<open>The same inputs with an empty request, and with the ZIP file missing.\<close>

definition empty_request_world :: world where
  "empty_request_world =
     example_world\<lparr>disk := (disk example_world)(paths_slcp := \<lparr>rows = [], ending = End\<rparr>)\<rparr>"

definition missing_zips_world :: world where
  "missing_zips_world = example_world\<lparr>disk := (disk example_world)(paths_zips := no_file)\<rparr>"

text \<open>
  A plan file in which one Silver rate of rate area 1 is not a number, with ZIP 12345 in
  that rate area.
\<close>

definition nan_plans :: "row list" where
  "nan_plans =
     [\<lparr>zipcode = [], metal_level = ''Silver'', rate = ''100.00'', rate_area = ''1''\<rparr>,
      \<lparr>zipcode = [], metal_level = ''Silver'', rate = ''abc'', rate_area = ''1''\<rparr>]"

definition nan_zips :: "row list" where
  "nan_zips = [\<lparr>zipcode = ''12345'', metal_level = [], rate = [], rate_area = ''1''\<rparr>]"

definition nan_request :: "row list" where
  "nan_request = [\<lparr>zipcode = ''12345'', metal_level = [], rate = [], rate_area = []\<rparr>]"

definition nan_world :: world where
  "nan_world =
     \<lparr>disk = (\<lambda>p. if p = paths_plans then \<lparr>rows = nan_plans, ending = End\<rparr>
                 else if p = paths_zips then \<lparr>rows = nan_zips, ending = End\<rparr>
                 else if p = paths_slcp then \<lparr>rows = nan_request, ending = End\<rparr>
                 else no_file),
      written = Map.empty, stdout = [], stderr = []\<rparr>"

section \<open>Properties of the built-ins\<close>

lemma set_Set_add [simp]: "set (Set_add x s) = insert x (set s)"
  by (auto simp: Set_add_def)

lemma distinct_Set_add [simp]: "distinct (Set_add x s) = distinct s"
  by (auto simp: Set_add_def)

lemma members_Nil [simp]: "members [] a = []"
  by (simp add: members_def)

subsection \<open>The comparator orders the numbers other than \<open>NaN\<close>\<close>

lemma compareFn_le_iff: "compareFn a b \<le> 0 \<longleftrightarrow> \<not> less_num b a"
  by (cases a; cases b) auto

lemma less_num_trans: "less_num a b \<Longrightarrow> less_num b c \<Longrightarrow> less_num a c"
  by (cases a; cases b; cases c) auto

lemma less_num_asym: "less_num a b \<Longrightarrow> \<not> less_num b a"
  by (cases a; cases b) auto

lemma less_num_total: "a \<noteq> NaN \<Longrightarrow> b \<noteq> NaN \<Longrightarrow> a \<noteq> b \<Longrightarrow> less_num a b \<or> less_num b a"
  by (cases a; cases b) auto

subsection \<open>The sort\<close>

lemma set_insort_by [simp]: "set (insort_by x ys) = insert x (set ys)"
  by (induction ys) auto

lemma length_insort_by [simp]: "length (insort_by x ys) = Suc (length ys)"
  by (induction ys) auto

lemma distinct_insort_by [simp]: "distinct (insort_by x ys) \<longleftrightarrow> x \<notin> set ys \<and> distinct ys"
  by (induction ys) auto

lemma mset_insort_by [simp]: "mset (insort_by x ys) = add_mset x (mset ys)"
  by (induction ys) auto

lemma sorted_insort_by:
  assumes "sorted_wrt less_num ys" "x \<noteq> NaN" "NaN \<notin> set ys" "x \<notin> set ys"
  shows "sorted_wrt less_num (insort_by x ys)"
  using assms
proof (induction ys)
  case Nil
  then show ?case by simp
next
  case (Cons y ys)
  show ?case
  proof (cases "less_num y x")
    case True
    with Cons show ?thesis by (auto simp: compareFn_le_iff)
  next
    case False
    with Cons.prems have xy: "less_num x y"
      using less_num_total [of x y] by auto
    then have "\<forall>z\<in>set ys. less_num x z"
      using Cons.prems(1) less_num_trans by auto
    with False xy Cons.prems(1) show ?thesis by (simp add: compareFn_le_iff)
  qed
qed

lemma set_foldr_insort_by [simp]: "set (foldr insort_by xs []) = set xs"
  by (induction xs) simp_all

lemma sorted_foldr_insort_by:
  "NaN \<notin> set xs \<Longrightarrow> distinct xs \<Longrightarrow> sorted_wrt less_num (foldr insort_by xs [])"
proof (induction xs)
  case Nil
  then show ?case by simp
next
  case (Cons x xs)
  then have "sorted_wrt less_num (foldr insort_by xs [])" "x \<noteq> NaN"
    "NaN \<notin> set (foldr insort_by xs [])" "x \<notin> set (foldr insort_by xs [])" by auto
  then have "sorted_wrt less_num (insort_by x (foldr insort_by xs []))" by (rule sorted_insort_by)
  then show ?case by simp
qed

subsection \<open>TimSort permutes\<close>

lemma loop_invariant:
  assumes "I s"
    and "\<And>s r. I s \<Longrightarrow> body s = Inl r \<Longrightarrow> P r"
    and "\<And>s s'. I s \<Longrightarrow> body s = Inr s' \<Longrightarrow> I s'"
    and "\<And>s. I s \<Longrightarrow> P (stop s)"
  shows "P (loop fuel body stop s)"
  using assms(1)
proof (induction fuel arbitrary: s)
  case 0
  then show ?case by (simp add: assms(4))
next
  case (Suc fuel)
  show ?case
  proof (cases "body s")
    case (Inl r)
    with Suc.prems show ?thesis by (simp add: assms(2))
  next
    case (Inr s')
    with Suc.prems have "I s'" by (rule_tac assms(3))
    with Inr Suc.IH show ?thesis by simp
  qed
qed

lemma mset_take_drop [simp]: "mset (take n xs) + mset (drop n xs) = mset xs"
  by (metis append_take_drop_id mset_append)

lemma mset_drop_take [simp]: "mset (drop n xs) + mset (take n xs) = mset xs"
  by (subst add.commute) (rule mset_take_drop)

lemma mset_butlast_last [simp]: "xs \<noteq> [] \<Longrightarrow> add_mset (last xs) (mset (butlast xs)) = mset xs"
  by (metis append_butlast_last_id mset.simps(2) mset_append union_mset_add_mset_right add.right_neutral mset.simps(1))

lemma mset_CountAndMakeRun: "mset (snd (CountAndMakeRun Compare xs)) = mset xs"
  by (auto simp: CountAndMakeRun_def Let_def split: list.splits)

lemma length_CountAndMakeRun: "length (snd (CountAndMakeRun Compare xs)) = length xs"
  using mset_CountAndMakeRun [of Compare xs] by (metis mset_eq_length)

lemma mset_insert_middle: "mset (take left T @ [p] @ drop left T @ D) = mset (T @ p # D)"
proof -
  have "mset (take left T @ [p] @ drop left T @ D) = (mset (take left T) + mset (drop left T)) + mset (p # D)"
    by (simp del: mset_take_drop)
  then show ?thesis by (simp only: mset_take_drop mset_append)
qed

lemma mset_insert_pivot:
  assumes "start < length ys"
  shows "mset (take left (take start ys) @ [ys ! start] @ drop left (take start ys) @ drop (Suc start) ys)
     = mset ys"
proof -
  have "mset (take left (take start ys) @ [ys ! start] @ drop left (take start ys) @ drop (Suc start) ys)
      = mset (take start ys @ ys ! start # drop (Suc start) ys)"
    by (rule mset_insert_middle)
  also have "take start ys @ ys ! start # drop (Suc start) ys = ys"
    using assms by (rule id_take_nth_drop [symmetric])
  finally show ?thesis .
qed

lemma mset_BinaryInsertionSort_loop:
  "n \<le> length ys - start \<Longrightarrow> mset (BinaryInsertionSort_loop Compare n start ys) = mset ys"
proof (induction n arbitrary: start ys)
  case 0
  then show ?case by simp
next
  case (Suc n)
  let ?left = "bsearch (\<lambda>mid. \<not> Compare (ys ! start) (ys ! mid) < 0) 0 start"
  let ?ys = "take ?left (take start ys) @ [ys ! start] @ drop ?left (take start ys) @ drop (Suc start) ys"
  from Suc.prems have st: "start < length ys" by simp
  have m: "mset ?ys = mset ys" using st by (rule mset_insert_pivot)
  then have "length ?ys = length ys" by (rule mset_eq_length)
  with Suc.prems have "n \<le> length ?ys - Suc start" by simp
  then have "mset (BinaryInsertionSort_loop Compare n (Suc start) ?ys) = mset ?ys" by (rule Suc.IH)
  with m show ?case by (simp add: Let_def)
qed

lemma mset_BinaryInsertionSort: "mset (BinaryInsertionSort Compare startArg ys) = mset ys"
  unfolding BinaryInsertionSort_def Let_def by (rule mset_BinaryInsertionSort_loop) simp

lemma MergeLow_straight_mset:
  "MergeLow_straight Compare nA nB mg out A B = Inl r \<Longrightarrow> mset (fst r) = mset out + mset A + mset B"
  "MergeLow_straight Compare nA nB mg out A B = Inr s \<Longrightarrow> merge_inv (mset out + mset A + mset B) s"
  by (auto simp: MergeLow_straight_def merge_inv_def split: list.splits if_splits)


lemma MergeLow_gallop_mset:
  "MergeLow_gallop Compare mg out A B = Inl r \<Longrightarrow> mset (fst r) = mset out + mset A + mset B"
  "MergeLow_gallop Compare mg out A B = Inr s \<Longrightarrow> merge_inv (mset out + mset A + mset B) s"
proof -
  have "(\<forall>r. MergeLow_gallop Compare mg out A B = Inl r \<longrightarrow> mset (fst r) = mset out + mset A + mset B)
      \<and> (\<forall>s. MergeLow_gallop Compare mg out A B = Inr s \<longrightarrow> merge_inv (mset out + mset A + mset B) s)"
  proof (cases B)
    case Nil
    then show ?thesis by (simp add: MergeLow_gallop_def)
  next
    case B: (Cons b bs)
    define n where "n = GallopRight Compare A b 0"
    define P where "P = take n A"
    define A1 where "A1 = drop n A"
    have A: "mset A = mset P + mset A1" by (simp add: P_def A1_def)
    show ?thesis
    proof (cases A1)
      case Nil
      show ?thesis
        unfolding MergeLow_gallop_def Let_def B list.case n_def [symmetric] P_def [symmetric]
          A1_def [symmetric] Nil
        by (simp add: A Nil)
    next
      case (Cons a as)
      define m where "m = GallopLeft Compare bs a 0"
      define Q where "Q = take m bs"
      define B2 where "B2 = drop m bs"
      have bs: "mset bs = mset Q + mset B2" by (simp add: Q_def B2_def)
      have Nil: "bs = [] \<Longrightarrow> Q = []" "bs = [] \<Longrightarrow> B2 = []" by (simp_all add: Q_def B2_def)
      show ?thesis
        unfolding MergeLow_gallop_def Let_def B list.case n_def [symmetric] P_def [symmetric]
          A1_def [symmetric] Cons m_def [symmetric] Q_def [symmetric] B2_def [symmetric]
        using Nil by (auto simp add: A Cons bs merge_inv_def)
    qed
  qed
  then show "MergeLow_gallop Compare mg out A B = Inl r \<Longrightarrow> mset (fst r) = mset out + mset A + mset B"
    "MergeLow_gallop Compare mg out A B = Inr s \<Longrightarrow> merge_inv (mset out + mset A + mset B) s"
    by blast+
qed


lemma MergeLow_body_mset:
  assumes "merge_inv M s"
  shows "MergeLow_body Compare s = Inl r \<Longrightarrow> mset (fst r) = M"
    and "MergeLow_body Compare s = Inr s' \<Longrightarrow> merge_inv M s'"
proof -
  obtain galloping nofWinsA nofWinsB minGallop out A B
    where s: "s = (galloping, nofWinsA, nofWinsB, minGallop, out, A, B)"
    by (cases s) auto
  with assms have M: "M = mset out + mset A + mset B" by (simp add: merge_inv_def)
  show "MergeLow_body Compare s = Inl r \<Longrightarrow> mset (fst r) = M"
    unfolding s M MergeLow_body_def
    by (simp split: if_splits add: MergeLow_gallop_mset(1) MergeLow_straight_mset(1))
  show "MergeLow_body Compare s = Inr s' \<Longrightarrow> merge_inv M s'"
    unfolding s M MergeLow_body_def
    by (simp split: if_splits add: MergeLow_gallop_mset(2) MergeLow_straight_mset(2))
qed

lemma mset_MergeLow: "mset (fst (MergeLow Compare A B minGallop)) = mset A + mset B"
proof (cases B)
  case Nil
  then show ?thesis by (simp add: MergeLow_def)
next
  case (Cons b bs)
  let ?P = "\<lambda>r :: 'a list \<times> nat. mset (fst r) = mset A + mset B"
  have "?P (loop (length A + length bs) (MergeLow_body Compare)
          (\<lambda>(galloping, nofWinsA, nofWinsB, minGallop, out, A, B). (out @ A @ B, minGallop))
          (False, 0, 0, minGallop, [b], A, bs))"
  proof (rule loop_invariant [where I = "merge_inv (mset A + mset B)"])
    show "merge_inv (mset A + mset B) (False, 0, 0, minGallop, [b], A, bs)"
      by (simp add: merge_inv_def Cons)
  next
    fix s r
    assume "merge_inv (mset A + mset B) s" "MergeLow_body Compare s = Inl r"
    then show "?P r" by (rule MergeLow_body_mset(1))
  next
    fix s s'
    assume "merge_inv (mset A + mset B) s" "MergeLow_body Compare s = Inr s'"
    then show "merge_inv (mset A + mset B) s'" by (rule MergeLow_body_mset(2))
  next
    fix s :: "'a merge_state"
    assume "merge_inv (mset A + mset B) s"
    then show "?P (case s of (galloping, nofWinsA, nofWinsB, minGallop, out, A, B) \<Rightarrow> (out @ A @ B, minGallop))"
      by (cases s) (simp add: merge_inv_def add.assoc)
  qed
  with Cons show ?thesis by (simp add: MergeLow_def)
qed

lemma mset_last_butlast: "xs \<noteq> [] \<Longrightarrow> mset xs = add_mset (last xs) (mset (butlast xs))"
  by simp

lemma MergeHigh_straight_mset:
  "MergeHigh_straight Compare nA nB mg out A B = Inl r \<Longrightarrow> mset (fst r) = mset out + mset A + mset B"
  "MergeHigh_straight Compare nA nB mg out A B = Inr s \<Longrightarrow> merge_inv (mset out + mset A + mset B) s"
proof -
  have "(\<forall>r. MergeHigh_straight Compare nA nB mg out A B = Inl r \<longrightarrow> mset (fst r) = mset out + mset A + mset B)
      \<and> (\<forall>s. MergeHigh_straight Compare nA nB mg out A B = Inr s \<longrightarrow> merge_inv (mset out + mset A + mset B) s)"
  proof (cases "A = [] \<or> B = []")
    case True
    then show ?thesis by (auto simp add: MergeHigh_straight_def)
  next
    case False
    define la where "la = last A"
    define A' where "A' = butlast A"
    define lb where "lb = last B"
    define B' where "B' = butlast B"
    from False have A: "mset A = add_mset la (mset A')" and B: "mset B = add_mset lb (mset B')"
      by (simp_all add: la_def A'_def lb_def B'_def)
    from False have F: "(A = [] \<or> B = []) = False" by simp
    show ?thesis
      unfolding MergeHigh_straight_def F if_False la_def [symmetric] A'_def [symmetric]
        lb_def [symmetric] B'_def [symmetric]
      by (simp add: A B merge_inv_def)
  qed
  then show "MergeHigh_straight Compare nA nB mg out A B = Inl r \<Longrightarrow> mset (fst r) = mset out + mset A + mset B"
    "MergeHigh_straight Compare nA nB mg out A B = Inr s \<Longrightarrow> merge_inv (mset out + mset A + mset B) s"
    by blast+
qed

lemma MergeHigh_gallop_mset:
  "MergeHigh_gallop Compare mg out A B = Inl r \<Longrightarrow> mset (fst r) = mset out + mset A + mset B"
  "MergeHigh_gallop Compare mg out A B = Inr s \<Longrightarrow> merge_inv (mset out + mset A + mset B) s"
proof -
  have "(\<forall>r. MergeHigh_gallop Compare mg out A B = Inl r \<longrightarrow> mset (fst r) = mset out + mset A + mset B)
      \<and> (\<forall>s. MergeHigh_gallop Compare mg out A B = Inr s \<longrightarrow> merge_inv (mset out + mset A + mset B) s)"
  proof (cases "A = [] \<or> B = []")
    case True
    then show ?thesis by (auto simp add: MergeHigh_gallop_def)
  next
    case False
    define lb where "lb = last B"
    define k where "k = GallopRight Compare A lb (length A - 1)"
    define D where "D = drop k A"
    define A1 where "A1 = take k A"
    define B1 where "B1 = butlast B"
    define la where "la = last A1"
    define k2 where "k2 = GallopLeft Compare B1 la (length B1 - 1)"
    define D2 where "D2 = drop k2 B1"
    define B2 where "B2 = take k2 B1"
    define A1' where "A1' = butlast A1"
    have A: "mset A = mset A1 + mset D" by (simp add: A1_def D_def)
    from False have B: "mset B = add_mset lb (mset B1)" by (simp add: lb_def B1_def)
    have B1: "mset B1 = mset B2 + mset D2" by (simp add: B2_def D2_def)
    have A1: "A1 \<noteq> [] \<Longrightarrow> mset A1 = add_mset la (mset A1')" by (simp add: la_def A1'_def)
    have Nil: "A1 = [] \<Longrightarrow> A1' = []" "B1 = [] \<Longrightarrow> B2 = []" "B1 = [] \<Longrightarrow> D2 = []"
      by (simp_all add: A1'_def B2_def D2_def)
    from False have F: "(A = [] \<or> B = []) = False" by simp
    show ?thesis
      unfolding MergeHigh_gallop_def Let_def F if_False lb_def [symmetric] k_def [symmetric]
        D_def [symmetric] A1_def [symmetric] B1_def [symmetric] k2_def [symmetric]
        D2_def [symmetric] B2_def [symmetric] la_def [symmetric] A1'_def [symmetric]
      by (simp add: A B B1 A1 merge_inv_def)
  qed
  then show "MergeHigh_gallop Compare mg out A B = Inl r \<Longrightarrow> mset (fst r) = mset out + mset A + mset B"
    "MergeHigh_gallop Compare mg out A B = Inr s \<Longrightarrow> merge_inv (mset out + mset A + mset B) s"
    by blast+
qed

lemma MergeHigh_body_mset:
  assumes "merge_inv M s"
  shows "MergeHigh_body Compare s = Inl r \<Longrightarrow> mset (fst r) = M"
    and "MergeHigh_body Compare s = Inr s' \<Longrightarrow> merge_inv M s'"
proof -
  obtain galloping nofWinsA nofWinsB minGallop out A B
    where s: "s = (galloping, nofWinsA, nofWinsB, minGallop, out, A, B)"
    by (cases s) auto
  with assms have M: "M = mset out + mset A + mset B" by (simp add: merge_inv_def)
  show "MergeHigh_body Compare s = Inl r \<Longrightarrow> mset (fst r) = M"
    unfolding s M MergeHigh_body_def
    by (simp split: if_splits add: MergeHigh_gallop_mset(1) MergeHigh_straight_mset(1))
  show "MergeHigh_body Compare s = Inr s' \<Longrightarrow> merge_inv M s'"
    unfolding s M MergeHigh_body_def
    by (simp split: if_splits add: MergeHigh_gallop_mset(2) MergeHigh_straight_mset(2))
qed

lemma mset_MergeHigh: "mset (fst (MergeHigh Compare A B minGallop)) = mset A + mset B"
proof (cases "A = []")
  case True
  then show ?thesis by (simp add: MergeHigh_def)
next
  case False
  let ?P = "\<lambda>r :: 'a list \<times> nat. mset (fst r) = mset A + mset B"
  have "?P (loop (length A + length B) (MergeHigh_body Compare)
          (\<lambda>(galloping, nofWinsA, nofWinsB, minGallop, out, A, B). (A @ B @ out, minGallop))
          (False, 0, 0, minGallop, [last A], butlast A, B))"
  proof (rule loop_invariant [where I = "merge_inv (mset A + mset B)"])
    show "merge_inv (mset A + mset B) (False, 0, 0, minGallop, [last A], butlast A, B)"
      using False by (simp add: merge_inv_def)
  next
    fix s r
    assume "merge_inv (mset A + mset B) s" "MergeHigh_body Compare s = Inl r"
    then show "?P r" by (rule MergeHigh_body_mset(1))
  next
    fix s s'
    assume "merge_inv (mset A + mset B) s" "MergeHigh_body Compare s = Inr s'"
    then show "merge_inv (mset A + mset B) s'" by (rule MergeHigh_body_mset(2))
  next
    fix s :: "'a merge_state"
    assume "merge_inv (mset A + mset B) s"
    then show "?P (case s of (galloping, nofWinsA, nofWinsB, minGallop, out, A, B) \<Rightarrow> (A @ B @ out, minGallop))"
      by (cases s) (auto simp add: merge_inv_def ac_simps)
  qed
  with False show ?thesis by (simp add: MergeHigh_def)
qed

lemma mset_mergeRuns: "mset (fst (mergeRuns Compare A B minGallop)) = mset A + mset B"
proof -
  define k where "k = GallopRight Compare A (hd B) 0"
  define P where "P = take k A"
  define A2 where "A2 = drop k A"
  define lengthB where "lengthB = GallopLeft Compare B (last A2) (length B - 1)"
  define B1 where "B1 = take lengthB B"
  define S where "S = drop lengthB B"
  have A: "mset A = mset P + mset A2" by (simp add: P_def A2_def)
  have B: "mset B = mset B1 + mset S" by (simp add: B1_def S_def)
  show ?thesis
    unfolding mergeRuns_def Let_def k_def [symmetric] P_def [symmetric] A2_def [symmetric]
      lengthB_def [symmetric] B1_def [symmetric] S_def [symmetric]
    by (simp add: mset_MergeLow mset_MergeHigh split_beta A B)
qed

lemma mset_MergeAt: "mset (concat (fst (MergeAt Compare i state))) = mset (concat (fst state))"
proof -
  obtain pendingRuns minGallop where state: "state = (pendingRuns, minGallop)"
    by (cases state)
  show ?thesis
  proof (cases "Suc i < length pendingRuns")
    case True
    define T where "T = take i pendingRuns"
    define R where "R = drop (i + 2) pendingRuns"
    define a where "a = pendingRuns ! i"
    define b where "b = pendingRuns ! Suc i"
    from True have "pendingRuns = take i pendingRuns @ pendingRuns ! i # drop (Suc i) pendingRuns"
      by (simp add: id_take_nth_drop [symmetric])
    also from True have "drop (Suc i) pendingRuns = pendingRuns ! Suc i # drop (Suc (Suc i)) pendingRuns"
      by (simp add: Cons_nth_drop_Suc)
    finally have "pendingRuns = T @ a # b # R"
      by (simp add: T_def R_def a_def b_def)
    then have runs: "mset (concat pendingRuns) = mset (concat T) + mset a + mset b + mset (concat R)"
      by (metis append_Cons concat.simps(2) concat_append mset_append add.assoc)
    from True have "fst (MergeAt Compare i state) = T @ [fst (mergeRuns Compare a b minGallop)] @ R"
      by (simp add: MergeAt_def state split_beta T_def R_def a_def b_def)
    then show ?thesis
      by (simp add: runs state mset_mergeRuns)
  next
    case False
    then show ?thesis by (simp add: MergeAt_def state)
  qed
qed

lemma runs_inv_MergeAt: "runs_inv M state \<Longrightarrow> runs_inv M (MergeAt Compare i state)"
  by (simp add: runs_inv_def mset_MergeAt)

lemma MergeCollapse_body_inv:
  assumes "runs_inv M state"
  shows "MergeCollapse_body Compare state = Inl r \<Longrightarrow> runs_inv M r"
    and "MergeCollapse_body Compare state = Inr s' \<Longrightarrow> runs_inv M s'"
  using assms
  by (auto simp add: MergeCollapse_body_def Let_def split_beta runs_inv_MergeAt split: if_splits)

lemma runs_inv_MergeCollapse: "runs_inv M state \<Longrightarrow> runs_inv M (MergeCollapse Compare state)"
  unfolding MergeCollapse_def
  by (rule loop_invariant [where I = "runs_inv M" and P = "runs_inv M"])
    (assumption, erule (1) MergeCollapse_body_inv(1), erule (1) MergeCollapse_body_inv(2), simp)

lemma MergeForceCollapse_body_inv:
  assumes "runs_inv M state"
  shows "MergeForceCollapse_body Compare state = Inl r \<Longrightarrow> runs_inv M r"
    and "MergeForceCollapse_body Compare state = Inr s' \<Longrightarrow> runs_inv M s'"
  using assms
  by (auto simp add: MergeForceCollapse_body_def Let_def split_beta runs_inv_MergeAt split: if_splits)

lemma runs_inv_MergeForceCollapse:
  "runs_inv M state \<Longrightarrow> runs_inv M (MergeForceCollapse Compare state)"
  unfolding MergeForceCollapse_def
  by (rule loop_invariant [where I = "runs_inv M" and P = "runs_inv M"])
    (assumption, erule (1) MergeForceCollapse_body_inv(1), erule (1) MergeForceCollapse_body_inv(2), simp)

lemma ArrayTimSort_body_inv:
  assumes "sort_inv M s"
  shows "ArrayTimSort_body Compare minRunLength s = Inl r \<Longrightarrow> runs_inv M r"
    and "ArrayTimSort_body Compare minRunLength s = Inr s' \<Longrightarrow> sort_inv M s'"
proof -
  obtain pendingRuns minGallop remaining where s: "s = ((pendingRuns, minGallop), remaining)"
    by (cases s) auto
  from assms have M: "mset (concat pendingRuns) + mset remaining = M"
    by (simp add: sort_inv_def s)
  obtain currentRunLength made where C: "CountAndMakeRun Compare remaining = (currentRunLength, made)"
    by (cases "CountAndMakeRun Compare remaining")
  have made: "mset made = mset remaining"
    using mset_CountAndMakeRun [of Compare remaining] by (simp add: C)
  define forcedRunLength where "forcedRunLength = min minRunLength (length remaining)"
  define array where "array = (if currentRunLength < minRunLength
      then BinaryInsertionSort Compare currentRunLength (take forcedRunLength made) @ drop forcedRunLength made
      else made)"
  define runLength where "runLength = (if currentRunLength < minRunLength then forcedRunLength
      else currentRunLength)"
  have array: "mset array = mset remaining"
    by (simp add: array_def mset_BinaryInsertionSort made [symmetric])
  have step: "remaining \<noteq> [] \<Longrightarrow> ArrayTimSort_body Compare minRunLength s =
      Inr (MergeCollapse Compare (pendingRuns @ [take runLength array], minGallop), drop runLength array)"
    by (simp add: ArrayTimSort_body_def s C Let_def forcedRunLength_def array_def runLength_def)
  have "runs_inv (mset (concat pendingRuns) + mset (take runLength array))
      (pendingRuns @ [take runLength array], minGallop)"
    by (simp add: runs_inv_def)
  then have "runs_inv (mset (concat pendingRuns) + mset (take runLength array))
      (MergeCollapse Compare (pendingRuns @ [take runLength array], minGallop))"
    by (rule runs_inv_MergeCollapse)
  then have next_inv: "sort_inv M
      (MergeCollapse Compare (pendingRuns @ [take runLength array], minGallop), drop runLength array)"
    using M array by (simp add: sort_inv_def runs_inv_def add.assoc)
  show "ArrayTimSort_body Compare minRunLength s = Inl r \<Longrightarrow> runs_inv M r"
    using M step by (cases "remaining = []") (auto simp add: ArrayTimSort_body_def s runs_inv_def)
  show "ArrayTimSort_body Compare minRunLength s = Inr s' \<Longrightarrow> sort_inv M s'"
    using next_inv step by (cases "remaining = []") (auto simp add: ArrayTimSort_body_def s)
qed

lemma runs_inv_ArrayTimSort_loop:
  "runs_inv (mset array)
     (loop fuel (ArrayTimSort_body Compare minRunLength)
        (\<lambda>((pendingRuns, minGallop), remaining). (pendingRuns @ [remaining], minGallop))
        (([], kMinGallopWins), array))"
proof (rule loop_invariant [where I = "sort_inv (mset array)" and P = "runs_inv (mset array)"])
  show "sort_inv (mset array) (([], kMinGallopWins), array)"
    by (simp add: sort_inv_def)
next
  fix s r
  assume "sort_inv (mset array) s" "ArrayTimSort_body Compare minRunLength s = Inl r"
  then show "runs_inv (mset array) r" by (rule ArrayTimSort_body_inv(1))
next
  fix s s'
  assume "sort_inv (mset array) s" "ArrayTimSort_body Compare minRunLength s = Inr s'"
  then show "sort_inv (mset array) s'" by (rule ArrayTimSort_body_inv(2))
next
  fix s :: "('a list list \<times> nat) \<times> 'a list"
  assume "sort_inv (mset array) s"
  then show "runs_inv (mset array)
     ((\<lambda>((pendingRuns, minGallop), remaining). (pendingRuns @ [remaining], minGallop)) s)"
    by (cases s) (auto simp add: sort_inv_def runs_inv_def)
qed

lemma mset_ArrayTimSort: "mset (ArrayTimSort Compare array) = mset array"
proof (cases "length array < 2")
  case True
  then show ?thesis by (simp add: ArrayTimSort_def)
next
  case False
  have "runs_inv (mset array) (MergeForceCollapse Compare
     (loop (Suc (length array)) (ArrayTimSort_body Compare (ComputeMinRunLength (length array)))
        (\<lambda>((pendingRuns, minGallop), remaining). (pendingRuns @ [remaining], minGallop))
        (([], kMinGallopWins), array)))"
    using runs_inv_ArrayTimSort_loop by (rule runs_inv_MergeForceCollapse)
  with False show ?thesis by (simp add: ArrayTimSort_def runs_inv_def)
qed

subsection \<open>The loops of TimSort stop within their fuel\<close>

lemma loop_more_fuel: "finishes fuel body s \<Longrightarrow> loop (fuel + k) body stop s = loop fuel body stop s"
proof (induction fuel arbitrary: s)
  case 0
  then show ?case by simp
next
  case (Suc fuel)
  then show ?case by (cases "body s") simp_all
qed

lemma finishes_measure:
  assumes "\<And>s s'. body s = Inr s' \<Longrightarrow> \<mu> s' < \<mu> s \<and> 0 < \<mu> s'"
    and "0 < \<mu> s" and "\<mu> s \<le> fuel"
  shows "finishes fuel body s"
  using assms(2,3)
proof (induction fuel arbitrary: s)
  case 0
  then show ?case by simp
next
  case (Suc fuel)
  show ?case
  proof (cases "body s")
    case (Inl r)
    then show ?thesis by simp
  next
    case (Inr s')
    then have "\<mu> s' < \<mu> s \<and> 0 < \<mu> s'" by (rule assms(1))
    with Suc.prems have "0 < \<mu> s'" "\<mu> s' \<le> fuel" by simp_all
    then have "finishes fuel body s'" by (rule Suc.IH)
    with Inr show ?thesis by simp
  qed
qed

lemma MergeLow_straight_size:
  "MergeLow_straight Compare nA nB mg out A B = Inr s
   \<Longrightarrow> merge_size s < length A + length B \<and> 0 < merge_size s"
  by (auto simp: MergeLow_straight_def merge_size_def split: list.splits if_splits)

lemma MergeLow_gallop_size:
  "MergeLow_gallop Compare mg out A B = Inr s
   \<Longrightarrow> merge_size s < length A + length B \<and> 0 < merge_size s"
  by (auto simp: MergeLow_gallop_def merge_size_def Let_def split: list.splits if_splits
      dest!: arg_cong [where f = length])


lemma MergeLow_body_size:
  "MergeLow_body Compare s = Inr s' \<Longrightarrow> merge_size s' < merge_size s \<and> 0 < merge_size s'"
  by (cases s) (auto simp: MergeLow_body_def merge_size_def split: if_splits
      dest!: MergeLow_straight_size MergeLow_gallop_size)

lemma MergeLow_finishes:
  "bs \<noteq> [] \<Longrightarrow> finishes (length A + length bs) (MergeLow_body Compare)
      (False, 0, 0, minGallop, [b], A, bs)"
  by (rule finishes_measure [where \<mu> = merge_size])
    (erule MergeLow_body_size, simp_all add: merge_size_def)

lemma MergeHigh_straight_size:
  "MergeHigh_straight Compare nA nB mg out A B = Inr s
   \<Longrightarrow> merge_size s < length A + length B \<and> 0 < merge_size s"
  by (auto simp: MergeHigh_straight_def merge_size_def split: if_splits)

lemma butlast_not_Nil: "butlast A \<noteq> [] \<Longrightarrow> Suc 0 < length A"
  by (cases A rule: rev_cases) auto

lemma MergeHigh_gallop_size:
  assumes "MergeHigh_gallop Compare mg out A B = Inr s"
  shows "merge_size s < length A + length B \<and> 0 < merge_size s"
proof (cases "A = [] \<or> B = []")
  case True
  with assms show ?thesis by (auto simp add: MergeHigh_gallop_def)
next
  case False
  define lb where "lb = last B"
  define k where "k = GallopRight Compare A lb (length A - 1)"
  define A1 where "A1 = take k A"
  define B1 where "B1 = butlast B"
  define la where "la = last A1"
  define k2 where "k2 = GallopLeft Compare B1 la (length B1 - 1)"
  define B2 where "B2 = take k2 B1"
  define A1' where "A1' = butlast A1"
  have A1: "length A1 \<le> length A" by (simp add: A1_def)
  have A1': "A1' \<noteq> [] \<Longrightarrow> length A1' < length A1"
    by (auto simp add: A1'_def dest: butlast_not_Nil)
  from False have B1: "length B1 < length B" by (simp add: B1_def)
  have B2: "length B2 \<le> length B1" by (simp add: B2_def)
  from False have F: "(A = [] \<or> B = []) = False" by simp
  from assms show ?thesis
    unfolding MergeHigh_gallop_def Let_def F if_False lb_def [symmetric] k_def [symmetric]
      A1_def [symmetric] B1_def [symmetric] la_def [symmetric] k2_def [symmetric]
      B2_def [symmetric] A1'_def [symmetric]
    using A1 A1' B1 B2 by (auto simp add: merge_size_def split: if_splits)
qed

lemma MergeHigh_body_size:
  "MergeHigh_body Compare s = Inr s' \<Longrightarrow> merge_size s' < merge_size s \<and> 0 < merge_size s'"
  by (cases s) (auto simp: MergeHigh_body_def merge_size_def split: if_splits
      dest!: MergeHigh_straight_size MergeHigh_gallop_size)

lemma MergeHigh_finishes:
  "butlast A \<noteq> [] \<Longrightarrow> finishes (length A + length B) (MergeHigh_body Compare)
      (False, 0, 0, minGallop, [last A], butlast A, B)"
  by (rule finishes_measure [where \<mu> = merge_size])
    (erule MergeHigh_body_size, auto simp add: merge_size_def dest: butlast_not_Nil)


lemma length_MergeAt:
  "Suc i < length pendingRuns
   \<Longrightarrow> length (fst (MergeAt Compare i (pendingRuns, minGallop))) = length pendingRuns - 1"
  by (auto simp add: MergeAt_def split_beta)

lemma MergeCollapse_body_size:
  assumes "MergeCollapse_body Compare state = Inr state'"
  shows "length (fst state') < length (fst state) \<and> 0 < length (fst state')"
proof -
  obtain pendingRuns minGallop where state: "state = (pendingRuns, minGallop)"
    by (cases state)
  from assms have len: "1 < length pendingRuns"
    by (simp add: MergeCollapse_body_def state split: if_splits)
  from assms obtain i where i: "state' = MergeAt Compare i (pendingRuns, minGallop)"
      "i = length pendingRuns - 2 \<or> i = length pendingRuns - 2 - 1"
    by (auto simp add: MergeCollapse_body_def state Let_def split: if_splits)
  from len i(2) have "Suc i < length pendingRuns" by auto
  then have "length (fst state') = length pendingRuns - 1"
    unfolding i(1) by (rule length_MergeAt)
  with len show ?thesis by (simp add: state)
qed

lemma MergeCollapse_finishes:
  "fst state \<noteq> [] \<Longrightarrow> finishes (length (fst state)) (MergeCollapse_body Compare) state"
  by (rule finishes_measure [where \<mu> = "\<lambda>state. length (fst state)"])
    (erule MergeCollapse_body_size, simp_all)

lemma MergeForceCollapse_body_size:
  assumes "MergeForceCollapse_body Compare state = Inr state'"
  shows "length (fst state') < length (fst state) \<and> 0 < length (fst state')"
proof -
  obtain pendingRuns minGallop where state: "state = (pendingRuns, minGallop)"
    by (cases state)
  from assms have len: "1 < length pendingRuns"
    by (simp add: MergeForceCollapse_body_def state split: if_splits)
  from assms obtain i where i: "state' = MergeAt Compare i (pendingRuns, minGallop)"
      "i = length pendingRuns - 2 \<or> i = length pendingRuns - 2 - 1"
    by (auto simp add: MergeForceCollapse_body_def state Let_def split: if_splits)
  from len i(2) have "Suc i < length pendingRuns" by auto
  then have "length (fst state') = length pendingRuns - 1"
    unfolding i(1) by (rule length_MergeAt)
  with len show ?thesis by (simp add: state)
qed

lemma MergeForceCollapse_finishes:
  "fst state \<noteq> [] \<Longrightarrow> finishes (length (fst state)) (MergeForceCollapse_body Compare) state"
  by (rule finishes_measure [where \<mu> = "\<lambda>state. length (fst state)"])
    (erule MergeForceCollapse_body_size, simp_all)

lemma CountAndMakeRun_positive: "xs \<noteq> [] \<Longrightarrow> 0 < fst (CountAndMakeRun Compare xs)"
  by (auto simp add: CountAndMakeRun_def Let_def split: list.splits)

lemma ArrayTimSort_body_size:
  assumes "ArrayTimSort_body Compare minRunLength s = Inr s'"
  shows "length (snd s') < length (snd s)"
proof -
  obtain pendingRuns minGallop remaining where s: "s = ((pendingRuns, minGallop), remaining)"
    by (cases s) auto
  from assms have ne: "remaining \<noteq> []"
    by (auto simp add: ArrayTimSort_body_def s split: if_splits)
  obtain currentRunLength made where C: "CountAndMakeRun Compare remaining = (currentRunLength, made)"
    by (cases "CountAndMakeRun Compare remaining")
  have made: "length made = length remaining"
    using length_CountAndMakeRun [of Compare remaining] by (simp add: C)
  have pos: "0 < currentRunLength"
    using CountAndMakeRun_positive [OF ne, of Compare] by (simp add: C)
  define forcedRunLength where "forcedRunLength = min minRunLength (length remaining)"
  define array where "array = (if currentRunLength < minRunLength
      then BinaryInsertionSort Compare currentRunLength (take forcedRunLength made) @ drop forcedRunLength made
      else made)"
  define runLength where "runLength = (if currentRunLength < minRunLength then forcedRunLength
      else currentRunLength)"
  have "mset array = mset made"
    by (simp add: array_def mset_BinaryInsertionSort)
  then have "length array = length made" by (rule mset_eq_length)
  with made have array: "length array = length remaining" by simp
  from pos ne have run: "0 < runLength"
    by (auto simp add: runLength_def forcedRunLength_def)
  from ne have "ArrayTimSort_body Compare minRunLength s =
      Inr (MergeCollapse Compare (pendingRuns @ [take runLength array], minGallop), drop runLength array)"
    by (simp add: ArrayTimSort_body_def s C Let_def forcedRunLength_def array_def runLength_def)
  with assms have "s' = (MergeCollapse Compare (pendingRuns @ [take runLength array], minGallop),
      drop runLength array)"
    by simp
  with array run ne show ?thesis by (simp add: s)
qed

lemma ArrayTimSort_finishes:
  "finishes (Suc (length array)) (ArrayTimSort_body Compare minRunLength) (state, array)"
proof (rule finishes_measure [where \<mu> = "\<lambda>s. Suc (length (snd s))"])
  fix s s' :: "('a list list \<times> nat) \<times> 'a list"
  assume "ArrayTimSort_body Compare minRunLength s = Inr s'"
  then have "length (snd s') < length (snd s)" by (rule ArrayTimSort_body_size)
  then show "Suc (length (snd s')) < Suc (length (snd s)) \<and> 0 < Suc (length (snd s'))" by simp
qed simp_all

lemma ArrayTimSort_runs_not_Nil:
  assumes "array \<noteq> []"
  shows "fst (loop fuel (ArrayTimSort_body Compare minRunLength)
        (\<lambda>((pendingRuns, minGallop), remaining). (pendingRuns @ [remaining], minGallop))
        (([], kMinGallopWins), array)) \<noteq> []"
proof
  assume "fst (loop fuel (ArrayTimSort_body Compare minRunLength)
        (\<lambda>((pendingRuns, minGallop), remaining). (pendingRuns @ [remaining], minGallop))
        (([], kMinGallopWins), array)) = []"
  with runs_inv_ArrayTimSort_loop [of array fuel Compare minRunLength] have "mset array = {#}"
    by (simp add: runs_inv_def)
  with assms show False by simp
qed

subsection \<open>The sort of the program\<close>

lemma Array_sort_Nil [simp]: "Array_sort [] = []"
  by (simp add: Array_sort_def)

lemma mset_Array_sort: "mset (Array_sort xs) = mset xs"
proof (cases "NaN \<in> set xs")
  case True
  then show ?thesis by (simp add: Array_sort_def mset_ArrayTimSort)
next
  case False
  have "mset (foldr insort_by xs []) = mset xs" by (induction xs) simp_all
  with False show ?thesis by (simp add: Array_sort_def)
qed

lemma set_Array_sort [simp]: "set (Array_sort xs) = set xs"
  using mset_Array_sort [of xs] by (rule mset_eq_setD)

lemma length_Array_sort [simp]: "length (Array_sort xs) = length xs"
  using mset_Array_sort [of xs] by (rule mset_eq_length)

lemma distinct_Array_sort [simp]: "distinct (Array_sort xs) = distinct xs"
  using mset_Array_sort [of xs] by (rule mset_eq_imp_distinct_iff)

lemma sorted_Array_sort:
  "NaN \<notin> set xs \<Longrightarrow> distinct xs \<Longrightarrow> sorted_wrt less_num (Array_sort xs)"
  by (simp add: Array_sort_def sorted_foldr_insort_by)

lemma Array_sort_NaN_example:
  "Array_sort [Fin 3, Fin 1, NaN, Fin 2] = [Fin 1, Fin 2, Fin 3, NaN]"
  by code_simp

lemma count_list_distinct: "distinct xs \<Longrightarrow> x \<in> set xs \<Longrightarrow> count_list xs x = 1"
  by (induction xs) auto

lemma second_of_sorted:
  assumes "sorted_wrt less_num ys" "1 < length ys"
  shows "second_smallest (set ys) (ys ! 1)"
proof -
  from assms(2) obtain a b rest where ys: "ys = a # b # rest"
    by (cases ys; cases "tl ys") auto
  with assms(1) have ab: "less_num a b" and br: "\<forall>z\<in>set rest. less_num b z"
    by auto
  have "{x \<in> set ys. less_num x b} = {a}"
    using ab br less_num_asym by (auto simp: ys)
  then show ?thesis by (simp add: second_smallest_def ys)
qed

subsection \<open>\<open>toFixed(2)\<close> below \<open>10^21\<close>\<close>

lemma isDigit_digitChar: "0 \<le> d \<Longrightarrow> d < 10 \<Longrightarrow> isDigit (digitChar d)"
  by (simp add: isDigit_def digitChar_def)

lemma decimalDigits_digits:
  "0 \<le> n \<Longrightarrow> list_all isDigit (decimalDigits n) \<and> decimalDigits n \<noteq> []"
proof (induction n rule: decimalDigits.induct)
  case (1 n)
  show ?case
  proof (cases "n < 10")
    case True
    with 1 show ?thesis by (simp add: decimalDigits.simps [of n] isDigit_digitChar)
  next
    case False
    with 1 have "list_all isDigit (decimalDigits (n div 10))" by simp
    with False 1 show ?thesis
      by (simp add: decimalDigits.simps [of n] isDigit_digitChar)
  qed
qed

lemma isDigit_not_minus: "isDigit c \<Longrightarrow> c \<noteq> CHR ''-''"
  by (auto simp: isDigit_def)

lemma two_fraction_digits_form:
  assumes "list_all isDigit m" "2 < length m"
  shows "two_fraction_digits (take (length m - 2) m @ ''.'' @ drop (length m - 2) m)"
    and "two_fraction_digits (''-'' @ take (length m - 2) m @ ''.'' @ drop (length m - 2) m)"
proof -
  from assms obtain c cs where m: "m = c # cs" by (cases m) auto
  with assms(1) have c: "c \<noteq> CHR ''-''" using isDigit_not_minus by auto
  have "take (length m - 2) m \<noteq> []" using assms(2) by auto
  then obtain t ts where t: "take (length m - 2) m = t # ts"
    by (cases "take (length m - 2) m") auto
  have tc: "t = c" using t m assms(2) by (cases "length m - 2") auto
  have dig1: "list_all isDigit (take (length m - 2) m)"
    using assms(1) by (metis append_take_drop_id list_all_append)
  have dig2: "list_all isDigit (drop (length m - 2) m)"
    using assms(1) by (metis append_take_drop_id list_all_append)
  show "two_fraction_digits (take (length m - 2) m @ ''.'' @ drop (length m - 2) m)"
    unfolding two_fraction_digits_def Let_def using assms(2) dig1 dig2 c tc t
    by (simp add: min_def)
  have "\<not> length m \<le> length m - 2" using assms(2) by arith
  then show "two_fraction_digits (''-'' @ take (length m - 2) m @ ''.'' @ drop (length m - 2) m)"
    unfolding two_fraction_digits_def Let_def using assms(2) dig1 dig2
    by (simp add: min_def)
qed

lemma toFixed2_two_fraction_digits:
  assumes "\<bar>q\<bar> < 10 ^ 21"
  shows "two_fraction_digits (toFixed2 (Fin q))"
proof -
  define n where "n = \<lfloor>\<bar>q\<bar> * 100 + 1 / 2\<rfloor>"
  define m where "m = (if length (decimalDigits n) \<le> 2
    then replicate (3 - length (decimalDigits n)) (CHR ''0'') @ decimalDigits n
    else decimalDigits n)"
  have "0 \<le> n" by (simp add: n_def)
  then have dd: "list_all isDigit (decimalDigits n)" using decimalDigits_digits by blast
  have z: "isDigit (CHR ''0'')" by (simp add: isDigit_def)
  have m1: "list_all isDigit m" using dd z by (simp add: m_def list_all_iff)
  have m2: "2 < length m" by (auto simp: m_def)
  have "toFixed2 (Fin q) =
      (if q < 0 then ''-'' else []) @ take (length m - 2) m @ ''.'' @ drop (length m - 2) m"
    using assms by (simp add: toFixed2_def pow10_def Let_def n_def m_def)
  then show ?thesis using two_fraction_digits_form [OF m1 m2] by (cases "q < 0") simp_all
qed

section \<open>The two indexes\<close>

subsection \<open>What \<open>parseCSV\<close> resolves with\<close>

lemma feed_pure:
  "feed (\<lambda>r (data, w). Inr (f r data, w)) rs (d, w) = (Inr (fold f rs d), w)"
  by (induction rs arbitrary: d) simp_all

lemma parsePlans_eq:
  "parsePlans p w =
     (case ending (disk w p) of
        End \<Rightarrow> Inr (plansData (rows (disk w p)) [])
      | ParserError e \<Rightarrow> Inl (Rejected e)
      | ReadError e \<Rightarrow> Inl (Uncaught e), w)"
  by (simp add: parsePlans_def parseCSV_def feed_pure plansData_def split: ending.splits)

lemma parsePlans_Inr:
  "fst (parsePlans p w) = Inr silverPlanData \<Longrightarrow> silverPlanData = plansData (rows (disk w p)) []"
  by (simp add: parsePlans_eq split: ending.splits)

lemma feed_zips:
  "feed (\<lambda>r (data, w). map_sum id (\<lambda>d. (d, w)) (parseZips_row r data)) rs (d, w)
     = (zipsData rs d, w)"
  by (induction rs arbitrary: d) (simp_all split: sum.splits)

lemma parseZips_eq:
  "parseZips p w =
     (case zipsData (rows (disk w p)) [] of
        Inl e \<Rightarrow> Inl e
      | Inr data \<Rightarrow>
          (case ending (disk w p) of
             End \<Rightarrow> Inr data
           | ParserError e \<Rightarrow> Inl (Rejected e)
           | ReadError e \<Rightarrow> Inl (Uncaught e)), w)"
  by (simp add: parseZips_def parseCSV_def feed_zips split: sum.splits ending.splits)

lemma parseZips_Inr:
  "fst (parseZips p w) = Inr zipData \<Longrightarrow> zipsData (rows (disk w p)) [] = Inr zipData"
  by (simp add: parseZips_eq split: sum.splits ending.splits)

lemma feed_slcsp:
  "feed (processSLCSP_row pd zd) rs (d, w) =
     (Inr (slcspData pd zd rs d), w\<lparr>stdout := stdout w @ slcspLines pd zd rs\<rparr>)"
  by (induction rs arbitrary: d w)
     (simp_all add: processSLCSP_row_def console_log_def slcspData_def slcspLines_def Let_def)

lemma processSLCSP_eq:
  "processSLCSP p pd zd w =
     (case ending (disk w p) of
        End \<Rightarrow> Inr (slcspData pd zd (rows (disk w p)) [])
      | ParserError e \<Rightarrow> Inl (Rejected e)
      | ReadError e \<Rightarrow> Inl (Uncaught e),
      w\<lparr>stdout := stdout w @ ''zipcode, rate'' # slcspLines pd zd (rows (disk w p))\<rparr>)"
  by (simp add: processSLCSP_def parseCSV_def feed_slcsp console_log_def split: ending.splits)

subsection \<open>The rate area index holds the Silver rates of each area\<close>

lemma parsePlans_row_map_of:
  "map_of (parsePlans_row r d) a =
     (if metal_level r = ''Silver'' \<and> parseInt (rate_area r) = a
      then Some (Set_add (parseFloat (rate r)) (members d a)) else map_of d a)"
  by (auto simp: parsePlans_row_def Let_def update_conv' members_def split: option.splits)

lemma members_parsePlans_row:
  "members (parsePlans_row r d) a =
     (if metal_level r = ''Silver'' \<and> parseInt (rate_area r) = a
      then Set_add (parseFloat (rate r)) (members d a) else members d a)"
  by (simp add: members_def [of "parsePlans_row r d"] parsePlans_row_map_of)
     (simp add: members_def)

lemma silver_rates_Nil [simp]: "silver_rates [] a = {}"
  by (simp add: silver_rates_def)

lemma silver_rates_Cons:
  "silver_rates (r # rs) a =
     (if metal_level r = ''Silver'' \<and> parseInt (rate_area r) = a
      then insert (parseFloat (rate r)) (silver_rates rs a) else silver_rates rs a)"
  by (simp add: silver_rates_def)

lemma plansData_Nil [simp]: "plansData [] d = d"
  by (simp add: plansData_def)

lemma plansData_Cons [simp]: "plansData (r # rs) d = plansData rs (parsePlans_row r d)"
  by (simp add: plansData_def)

lemma set_members_plansData:
  "set (members (plansData rs d) a) = set (members d a) \<union> silver_rates rs a"
  by (induction rs arbitrary: d) (auto simp: members_parsePlans_row silver_rates_Cons)

lemma distinct_members_plansData:
  "distinct (members d a) \<Longrightarrow> distinct (members (plansData rs d) a)"
  by (induction rs arbitrary: d) (auto simp: members_parsePlans_row)

lemma map_of_plansData_None:
  "map_of (plansData rs d) a = None \<longleftrightarrow> map_of d a = None \<and> silver_rates rs a = {}"
  by (induction rs arbitrary: d) (auto simp: parsePlans_row_map_of silver_rates_Cons)

lemma plan_index_entry:
  assumes "silver_rates plans a \<noteq> {}"
  shows "\<exists>s. map_of (plansData plans []) a = Some s \<and> set s = silver_rates plans a \<and> distinct s"
proof -
  from assms obtain s where s: "map_of (plansData plans []) a = Some s"
    using map_of_plansData_None [of plans "[]" a] by auto
  then have "members (plansData plans []) a = s" by (simp add: members_def)
  with set_members_plansData [of plans "[]" a] distinct_members_plansData [of "[]" a plans] s
  show ?thesis by auto
qed

lemma plansData_filter:
  "plansData (filter (\<lambda>r. metal_level r = ''Silver'') rs) d = plansData rs d"
  by (induction rs arbitrary: d) (simp_all add: parsePlans_row_def)

lemma map_of_preprocessPlanRates:
  "map_of (preprocessPlanRates planData) a = map_option Array_sort (map_of planData a)"
  by (simp add: preprocessPlanRates_def map_of_map)

subsection \<open>The ZIP index holds the rate areas of each ZIP code\<close>

lemma parseZips_row_map_of:
  "parseZips_row r d = Inr d' \<Longrightarrow>
   map_of d' z = (if zipcode r = z then Some (Set_add (parseInt (rate_area r)) (members d z))
                  else map_of d z)"
  by (auto simp: parseZips_row_def Let_def getProperty_def members_def update_conv'
      split: option.splits if_splits)

lemma zip_areas_Nil [simp]: "zip_areas [] z = {}"
  by (simp add: zip_areas_def)

lemma zip_areas_Cons:
  "zip_areas (r # rs) z =
     (if zipcode r = z then insert (parseInt (rate_area r)) (zip_areas rs z) else zip_areas rs z)"
  by (simp add: zip_areas_def)

lemma zipsData_index:
  "zipsData rs d = Inr d' \<Longrightarrow>
     (map_of d' z = None \<longleftrightarrow> map_of d z = None \<and> zip_areas rs z = {})
     \<and> set (members d' z) = set (members d z) \<union> zip_areas rs z
     \<and> (distinct (members d z) \<longrightarrow> distinct (members d' z))"
proof (induction rs arbitrary: d)
  case Nil
  then show ?case by simp
next
  case (Cons r rs)
  from Cons.prems obtain d1 where d1: "parseZips_row r d = Inr d1"
    and rest: "zipsData rs d1 = Inr d'"
    by (auto split: sum.splits)
  have m: "members d1 z =
      (if zipcode r = z then Set_add (parseInt (rate_area r)) (members d z) else members d z)"
    using parseZips_row_map_of [OF d1, of z]
    by (simp add: members_def [of d1]) (simp add: members_def)
  from Cons.IH [OF rest] parseZips_row_map_of [OF d1, of z] m show ?case
    by (auto simp: zip_areas_Cons)
qed

lemma zip_index_one:
  assumes "zipsData zips [] = Inr zipData" "zip_areas zips z = {a}"
  shows "getProperty zipData z = Own [a]"
proof -
  from zipsData_index [OF assms(1), of z] assms(2)
  have ne: "map_of zipData z \<noteq> None" and st: "set (members zipData z) = {a}"
    and di: "distinct (members zipData z)" by auto
  from st di have "length (members zipData z) = 1"
    using distinct_card [of "members zipData z"] by simp
  with st have "members zipData z = [a]"
    by (cases "members zipData z") auto
  with ne show ?thesis by (auto simp: getProperty_def members_def split: option.splits)
qed

lemma zip_index_other:
  assumes "zipsData zips [] = Inr zipData" "card (zip_areas zips z) \<noteq> 1"
  shows "slcsp_rate planData zipData z = None"
proof (cases "map_of zipData z")
  case None
  then show ?thesis by (simp add: slcsp_rate_def getProperty_def)
next
  case (Some s)
  from zipsData_index [OF assms(1), of z] Some
  have "set s = zip_areas zips z" "distinct s" by (auto simp: members_def)
  then have "length s \<noteq> 1" using assms(2) distinct_card [of s] by simp
  with Some show ?thesis by (simp add: slcsp_rate_def getProperty_def)
qed

section \<open>The run\<close>

lemma console_fields [simp]:
  "written (console_error l w) = written w" "disk (console_error l w) = disk w"
  "stdout (console_error l w) = stdout w" "stderr (console_error l w) = stderr w @ [l]"
  "written (console_log l w) = written w" "disk (console_log l w) = disk w"
  "stdout (console_log l w) = stdout w @ [l]" "stderr (console_log l w) = stderr w"
  by (simp_all add: console_error_def console_log_def)

lemma abort_fields [simp]:
  "written (abort e w) = written w" "disk (abort e w) = disk w" "stdout (abort e w) = stdout w"
  by (cases e; simp)+

lemma abort_stderr: "\<exists>m. stderr (abort e w) = stderr w @ [m]"
  by (cases e) simp_all

lemma writeCSVFile_fields [simp]:
  "written (writeCSVFile data p w) = (written w)(p \<mapsto> csvContent data)"
  "disk (writeCSVFile data p w) = disk w"
  "stderr (writeCSVFile data p w) = stderr w"
  by (simp_all add: writeCSVFile_def)

lemma disk_main: "disk (main w) = disk w"
  by (simp add: main_def parsePlans_eq parseZips_eq processSLCSP_eq Let_def
      split: ending.splits sum.splits)

lemma written_main:
  "written (main w) =
     (case outcome (disk w) of Inl e \<Rightarrow> written w | Inr c \<Rightarrow> (written w)(paths_output \<mapsto> c))"
  by (simp add: main_def outcome_def parsePlans_eq parseZips_eq processSLCSP_eq Let_def
      split: ending.splits sum.splits)

lemma stderr_main_failure:
  "outcome (disk w) = Inl e \<Longrightarrow> \<exists>m. stderr (main w) = stderr w @ [m]"
  by (auto simp: main_def outcome_def parsePlans_eq parseZips_eq processSLCSP_eq Let_def
      abort_stderr split: ending.splits sum.splits)

lemma outcome_failure:
  "ending (d paths_plans) \<noteq> End \<or> (\<exists>e. zipsData (rows (d paths_zips)) [] = Inl e)
    \<or> ending (d paths_zips) \<noteq> End \<or> ending (d paths_slcp) \<noteq> End
    \<Longrightarrow> \<exists>e. outcome d = Inl e"
  by (auto simp: outcome_def split: ending.splits sum.splits)

lemma parseZips_Inl:
  "fst (parseZips p w) = Inl e \<Longrightarrow>
     (\<exists>e. zipsData (rows (disk w p)) [] = Inl e) \<or> ending (disk w p) \<noteq> End"
  by (auto simp: parseZips_eq split: sum.splits ending.splits)

lemma main_success:
  assumes "ending (disk w paths_plans) = End"
    and "zipsData (rows (disk w paths_zips)) [] = Inr zipData"
    and "ending (disk w paths_zips) = End" "ending (disk w paths_slcp) = End"
  shows "main w =
     writeCSVFile
       (slcspData (preprocessPlanRates (plansData (rows (disk w paths_plans)) [])) zipData
          (rows (disk w paths_slcp)) [])
       paths_output
       (w\<lparr>stdout := stdout w @ ''zipcode, rate''
           # slcspLines (preprocessPlanRates (plansData (rows (disk w paths_plans)) [])) zipData
               (rows (disk w paths_slcp))\<rparr>)"
  using assms by (simp add: main_def parsePlans_eq parseZips_eq processSLCSP_eq Let_def)

subsection \<open>The example inputs, evaluated\<close>

lemma example_disk [simp]:
  "disk example_world paths_plans = \<lparr>rows = example_plans, ending = End\<rparr>"
  "disk example_world paths_zips = \<lparr>rows = example_zips, ending = End\<rparr>"
  "disk example_world paths_slcp = \<lparr>rows = example_request, ending = End\<rparr>"
  by (simp_all add: example_world_def paths_plans_def paths_zips_def paths_slcp_def)

lemma example_plansData: "plansData example_plans [] = example_plan_index"
  by code_simp

lemma example_zipsData: "zipsData example_zips [] = Inr example_zip_index"
  by code_simp

lemma example_silver_rates:
  "silver_rates example_plans (Fin 7) = {Fin 200, Fin 150, Fin 300}"
  "silver_rates example_plans (Fin 2) = {Fin 250}"
  by code_simp+

lemma example_zip_areas:
  "zip_areas example_zips ''64148'' = {Fin 7}"
  "zip_areas example_zips ''00601'' = {Fin 1, Fin 4}"
  "zip_areas example_zips ''10001'' = {Fin 2}"
  by code_simp+

lemma example_parsePlans: "fst (parsePlans paths_plans example_world) = Inr example_plan_index"
  by (simp add: parsePlans_eq example_plansData)

lemma example_parseZips: "fst (parseZips paths_zips example_world) = Inr example_zip_index"
  by (simp add: parseZips_eq example_zipsData)

lemma example_slcspData:
  "slcspData (preprocessPlanRates example_plan_index) example_zip_index example_request [] =
     [(''64148'', Some ''200.00''), (''00601'', None), (''10001'', None)]"
  by code_simp

lemma example_slcspLines:
  "slcspLines (preprocessPlanRates example_plan_index) example_zip_index example_request =
     [''64148, 200.00'', ''00601, '', ''10001, '', ''64148, 200.00'']"
  by code_simp

lemma example_csvContent:
  "csvContent [(''64148'', Some ''200.00''), (''00601'', None), (''10001'', None)] =
     ''zipcode,rate'' @ [CHR 0x0A] @ ''10001,'' @ [CHR 0x0A] @ ''64148,200.00''
       @ [CHR 0x0A] @ ''00601,''"
  by code_simp

lemma nan_disk [simp]:
  "disk nan_world paths_plans = \<lparr>rows = nan_plans, ending = End\<rparr>"
  "disk nan_world paths_zips = \<lparr>rows = nan_zips, ending = End\<rparr>"
  "disk nan_world paths_slcp = \<lparr>rows = nan_request, ending = End\<rparr>"
  by (simp_all add: nan_world_def paths_plans_def paths_zips_def paths_slcp_def)

lemma nan_plansData: "plansData nan_plans [] = [(Fin 1, [Fin 100, NaN])]"
  by code_simp

lemma nan_zipsData: "zipsData nan_zips [] = Inr [(''12345'', [Fin 1])]"
  by code_simp

lemma nan_silver_rates: "silver_rates nan_plans (Fin 1) = {Fin 100, NaN}"
  by code_simp

lemma nan_zip_areas: "zip_areas nan_zips ''12345'' = {Fin 1}"
  by code_simp

lemma nan_slcsp_rate:
  "slcsp_rate (preprocessPlanRates [(Fin 1, [Fin 100, NaN])]) [(''12345'', [Fin 1])] ''12345''
     = Some ''NaN''"
  by code_simp

lemma nan_slcspData:
  "slcspData (preprocessPlanRates [(Fin 1, [Fin 100, NaN])]) [(''12345'', [Fin 1])] nan_request []
     = [(''12345'', Some ''NaN'')]"
  by code_simp

lemma nan_slcspLines:
  "slcspLines (preprocessPlanRates [(Fin 1, [Fin 100, NaN])]) [(''12345'', [Fin 1])] nan_request
     = [''12345, NaN'']"
  by code_simp

lemma nan_csvContent:
  "csvContent [(''12345'', Some ''NaN'')] = ''zipcode,rate'' @ [CHR 0x0A] @ ''12345,NaN''"
  by code_simp

lemma example_slcsp_rate:
  "slcsp_rate (preprocessPlanRates example_plan_index) example_zip_index ''64148''
     = Some ''200.00''"
  by code_simp

lemma two_digits_example: "two_fraction_digits ''200.00''"
  by code_simp

lemma nan_not_two_fraction_digits: "\<not> two_fraction_digits ''NaN''"
  by code_simp

lemma parse_abc: "parseFloat ''abc'' = NaN"
  by code_simp

lemma parse_hundred: "parseFloat ''100.00'' = Fin 100" "parseFloat ''100.0'' = Fin 100"
  by code_simp+

lemma parse_three: "parseInt ''3'' = Fin 3"
  by code_simp

lemma paths_distinct [simp]:
  "paths_plans \<noteq> paths_zips" "paths_plans \<noteq> paths_slcp" "paths_zips \<noteq> paths_slcp"
  "paths_zips \<noteq> paths_plans" "paths_slcp \<noteq> paths_plans" "paths_slcp \<noteq> paths_zips"
  by (simp_all add: paths_plans_def paths_zips_def paths_slcp_def)

section \<open>The claims\<close>

subsection \<open>C1: the output follows the request row by row\<close>

text \<open>
  C1 asks that the rows of the output file match the request in order and in count, a
  ZIP code that is requested \<open>k\<close> times filling \<open>k\<close> rows. The lines that
  \<open>processSLCSP\<close> logs do so, but the file does not: the rates are kept in a plain
  object keyed by ZIP code, and \<open>writeCSVFile\<close> lists that object with
  \<open>Object.entries\<close>. A repeated code is one key, and the keys that are array indices
  come first, in numeric order. On the example inputs the request is 64148, 00601, 10001,
  64148; the log has these four lines, and the file has the three rows 10001, 64148,
  00601.
\<close>

theorem output_rows_reordered_and_merged:
  "map zipcode (rows (disk example_world paths_slcp)) = [''64148'', ''00601'', ''10001'', ''64148'']
   \<and> written (main example_world) paths_output =
     Some (''zipcode,rate'' @ [CHR 0x0A] @ ''10001,'' @ [CHR 0x0A] @ ''64148,200.00''
           @ [CHR 0x0A] @ ''00601,'')
   \<and> stdout (main example_world) =
     [''zipcode, rate'', ''64148, 200.00'', ''00601, '', ''10001, '', ''64148, 200.00'',
      ''CSV file has been created at ./slcsp/slcsp_complete.csv'']"
proof -
  have "main example_world =
     writeCSVFile [(''64148'', Some ''200.00''), (''00601'', None), (''10001'', None)] paths_output
       (example_world\<lparr>stdout := stdout example_world @ ''zipcode, rate''
           # [''64148, 200.00'', ''00601, '', ''10001, '', ''64148, 200.00'']\<rparr>)"
    using main_success [of example_world example_zip_index]
    by (simp add: example_zipsData example_plansData example_slcspData example_slcspLines)
  then show ?thesis
    by (simp add: writeCSVFile_def console_log_def example_csvContent example_world_def
        paths_output_def example_request_def)
qed

subsection \<open>C2: the second lowest Silver rate\<close>

text \<open>
  C2, amended. Let the plan file and the ZIP file be read to their ends, let the ZIP code
  \<open>z\<close> belong to exactly one rate area \<open>a\<close>, and let the Silver rates of \<open>a\<close> be at
  least two different numbers, none of them \<open>NaN\<close>. Then the rate resolved for \<open>z\<close> is
  the second smallest of these rates, printed by \<open>toFixed(2)\<close>; and when that rate is
  finite and below \<open>10^21\<close> in magnitude, this is a decimal string with exactly two
  fraction digits.
\<close>

theorem second_lowest_rate_resolved:
  assumes plans: "fst (parsePlans plansPath w) = Inr silverPlanData"
    and zips: "fst (parseZips zipsPath w) = Inr zipData"
    and one: "zip_areas (rows (disk w zipsPath)) z = {a}"
    and two: "2 \<le> card (silver_rates (rows (disk w plansPath)) a)"
    and nan: "NaN \<notin> silver_rates (rows (disk w plansPath)) a"
  shows "\<exists>y. second_smallest (silver_rates (rows (disk w plansPath)) a) y
           \<and> slcsp_rate (preprocessPlanRates silverPlanData) zipData z = Some (toFixed2 y)
           \<and> (\<forall>q. y = Fin q \<and> \<bar>q\<bar> < 10 ^ 21 \<longrightarrow> two_fraction_digits (toFixed2 y))"
proof -
  let ?S = "silver_rates (rows (disk w plansPath)) a"
  have zp: "getProperty zipData z = Own [a]"
    using zip_index_one [OF parseZips_Inr [OF zips] one] .
  from two have "?S \<noteq> {}" by auto
  then obtain s where s: "map_of silverPlanData a = Some s" "set s = ?S" "distinct s"
    using plan_index_entry [of "rows (disk w plansPath)" a] parsePlans_Inr [OF plans] by auto
  from s two have len: "1 < length s" using distinct_card [of s] by simp
  from s nan have "NaN \<notin> set s" by simp
  then have srt: "sorted_wrt less_num (Array_sort s)" using s(3) by (rule sorted_Array_sort)
  have sec: "second_smallest ?S (Array_sort s ! 1)"
    using second_of_sorted [OF srt] len s(2) by simp
  have "slcsp_rate (preprocessPlanRates silverPlanData) zipData z
      = Some (toFixed2 (Array_sort s ! 1))"
    using zp s(1) len by (simp add: slcsp_rate_def map_of_preprocessPlanRates)
  with sec toFixed2_two_fraction_digits show ?thesis by auto
qed

text \<open>
  On the example inputs ZIP 64148 lies in rate area 7 only, whose Silver rates are 200,
  150 and 300; the rate resolved for it is \<open>200.00\<close>.
\<close>

theorem second_lowest_rate_resolved_witness:
  "zip_areas (rows (disk example_world paths_zips)) ''64148'' = {Fin 7}
   \<and> silver_rates (rows (disk example_world paths_plans)) (Fin 7) = {Fin 200, Fin 150, Fin 300}
   \<and> (\<exists>y. second_smallest (silver_rates (rows (disk example_world paths_plans)) (Fin 7)) y
         \<and> slcsp_rate (preprocessPlanRates example_plan_index) example_zip_index ''64148''
             = Some (toFixed2 y)
         \<and> toFixed2 y = ''200.00'')
   \<and> two_fraction_digits ''200.00''"
proof -
  have h3: "zip_areas (rows (disk example_world paths_zips)) ''64148'' = {Fin 7}"
    by (simp add: example_zip_areas)
  have S: "silver_rates (rows (disk example_world paths_plans)) (Fin 7)
      = {Fin 200, Fin 150, Fin 300}"
    by (simp add: example_silver_rates)
  have h4: "2 \<le> card (silver_rates (rows (disk example_world paths_plans)) (Fin 7))"
    by (simp add: example_silver_rates)
  have h5: "NaN \<notin> silver_rates (rows (disk example_world paths_plans)) (Fin 7)"
    by (simp add: example_silver_rates)
  from second_lowest_rate_resolved [OF example_parsePlans example_parseZips h3 h4 h5]
  obtain y where y: "second_smallest (silver_rates (rows (disk example_world paths_plans)) (Fin 7)) y"
    "slcsp_rate (preprocessPlanRates example_plan_index) example_zip_index ''64148''
       = Some (toFixed2 y)"
    by blast
  from y(2) have "toFixed2 y = ''200.00''" by (simp add: example_slcsp_rate)
  with y have "\<exists>y. second_smallest (silver_rates (rows (disk example_world paths_plans)) (Fin 7)) y
         \<and> slcsp_rate (preprocessPlanRates example_plan_index) example_zip_index ''64148''
             = Some (toFixed2 y)
         \<and> toFixed2 y = ''200.00''" by blast
  with h3 S two_digits_example show ?thesis by (intro conjI)
qed

text \<open>
  As C2 is worded it fails where a Silver rate of the area is not a number. In
  \<open>nan_world\<close> rate area 1 has the two distinct Silver rates \<open>100\<close> and \<open>NaN\<close>, neither
  of which is the second smallest; ZIP 12345 lies in that area only, and the rate
  resolved for it is the string \<open>NaN\<close>, which is also what the output file shows.
\<close>

theorem second_lowest_rate_NaN_counterexample:
  "fst (parsePlans paths_plans nan_world) = Inr [(Fin 1, [Fin 100, NaN])]
   \<and> fst (parseZips paths_zips nan_world) = Inr [(''12345'', [Fin 1])]
   \<and> zip_areas (rows (disk nan_world paths_zips)) ''12345'' = {Fin 1}
   \<and> card (silver_rates (rows (disk nan_world paths_plans)) (Fin 1)) = 2
   \<and> slcsp_rate (preprocessPlanRates [(Fin 1, [Fin 100, NaN])]) [(''12345'', [Fin 1])] ''12345''
       = Some ''NaN''
   \<and> \<not> two_fraction_digits ''NaN''
   \<and> \<not> second_smallest (silver_rates (rows (disk nan_world paths_plans)) (Fin 1)) NaN
   \<and> written (main nan_world) paths_output
       = Some (''zipcode,rate'' @ [CHR 0x0A] @ ''12345,NaN'')"
proof -
  have "main nan_world =
     writeCSVFile [(''12345'', Some ''NaN'')] paths_output
       (nan_world\<lparr>stdout := stdout nan_world @ ''zipcode, rate'' # [''12345, NaN'']\<rparr>)"
    using main_success [of nan_world "[(''12345'', [Fin 1])]"]
    by (simp add: nan_zipsData nan_plansData nan_slcspData nan_slcspLines)
  then have "written (main nan_world) paths_output
      = Some (''zipcode,rate'' @ [CHR 0x0A] @ ''12345,NaN'')"
    by (simp add: nan_csvContent)
  moreover have "\<not> second_smallest (silver_rates (rows (disk nan_world paths_plans)) (Fin 1)) NaN"
    by (simp add: second_smallest_def nan_silver_rates)
  ultimately show ?thesis
    by (simp add: parsePlans_eq parseZips_eq nan_plansData nan_zipsData nan_zip_areas
        nan_silver_rates nan_slcsp_rate nan_not_two_fraction_digits)
qed

subsection \<open>C3: no rate area, or several\<close>

text \<open>
  C3. Let the ZIP file be read to its end. A ZIP code \<open>z\<close> that belongs to no rate area
  (no row of the ZIP file has it) or to two or more is unresolved: its rate is the value
  for "no rate", which the log and the output file show as an empty field. The plan data
  may be anything.
\<close>

theorem no_single_rate_area_unresolved:
  assumes "fst (parseZips zipsPath w) = Inr zipData"
    and "card (zip_areas (rows (disk w zipsPath)) z) \<noteq> 1"
  shows "slcsp_rate planData zipData z = None
         \<and> rate_field (slcsp_rate planData zipData z) = []"
  using zip_index_other [OF parseZips_Inr [OF assms(1)] assms(2)] by (simp add: rate_field_def)

theorem no_single_rate_area_unresolved_witness:
  "card (zip_areas (rows (disk example_world paths_zips)) ''00601'') = 2
   \<and> slcsp_rate (preprocessPlanRates example_plan_index) example_zip_index ''00601'' = None
   \<and> rate_field (slcsp_rate (preprocessPlanRates example_plan_index) example_zip_index ''00601'')
       = []"
proof -
  have c: "card (zip_areas (rows (disk example_world paths_zips)) ''00601'') = 2"
    by (simp add: example_zip_areas)
  then have "card (zip_areas (rows (disk example_world paths_zips)) ''00601'') \<noteq> 1" by simp
  then have "slcsp_rate (preprocessPlanRates example_plan_index) example_zip_index ''00601'' = None
      \<and> rate_field (slcsp_rate (preprocessPlanRates example_plan_index) example_zip_index ''00601'')
          = []"
    by (rule no_single_rate_area_unresolved [OF example_parseZips])
  with c show ?thesis by (rule conjI)
qed

subsection \<open>C4: one rate area with fewer than two Silver rates\<close>

text \<open>
  C4. Let both files be read to their ends and let the ZIP code \<open>z\<close> belong to exactly one
  rate area \<open>a\<close>. If \<open>a\<close> is not a key of the rate area index, or has fewer than two
  distinct Silver rates, then \<open>z\<close> is unresolved.
\<close>

theorem fewer_than_two_rates_unresolved:
  assumes plans: "fst (parsePlans plansPath w) = Inr silverPlanData"
    and zips: "fst (parseZips zipsPath w) = Inr zipData"
    and one: "zip_areas (rows (disk w zipsPath)) z = {a}"
    and few: "a \<notin> fst ` set silverPlanData \<or> card (silver_rates (rows (disk w plansPath)) a) < 2"
  shows "slcsp_rate (preprocessPlanRates silverPlanData) zipData z = None"
proof -
  let ?S = "silver_rates (rows (disk w plansPath)) a"
  have zp: "getProperty zipData z = Own [a]"
    using zip_index_one [OF parseZips_Inr [OF zips] one] .
  show ?thesis
  proof (cases "map_of silverPlanData a")
    case None
    with zp show ?thesis by (simp add: slcsp_rate_def map_of_preprocessPlanRates)
  next
    case (Some s)
    then have "a \<in> fst ` set silverPlanData"
      using map_of_eq_None_iff [of silverPlanData a] by simp
    with few have c: "card ?S < 2" by simp
    from Some have "?S \<noteq> {}"
      using map_of_plansData_None [of "rows (disk w plansPath)" "[]" a] parsePlans_Inr [OF plans]
      by auto
    then obtain s' where s': "map_of silverPlanData a = Some s'" "set s' = ?S" "distinct s'"
      using plan_index_entry [of "rows (disk w plansPath)" a] parsePlans_Inr [OF plans] by auto
    with c have "length s' < 2" using distinct_card [of s'] by simp
    with zp s' show ?thesis by (simp add: slcsp_rate_def map_of_preprocessPlanRates)
  qed
qed

text \<open>On the example inputs ZIP 10001 lies in rate area 2 only, whose one Silver rate is 250.\<close>

theorem fewer_than_two_rates_unresolved_witness:
  "zip_areas (rows (disk example_world paths_zips)) ''10001'' = {Fin 2}
   \<and> card (silver_rates (rows (disk example_world paths_plans)) (Fin 2)) = 1
   \<and> slcsp_rate (preprocessPlanRates example_plan_index) example_zip_index ''10001'' = None"
proof -
  have h3: "zip_areas (rows (disk example_world paths_zips)) ''10001'' = {Fin 2}"
    by (simp add: example_zip_areas)
  have c: "card (silver_rates (rows (disk example_world paths_plans)) (Fin 2)) = 1"
    by (simp add: example_silver_rates)
  then have h4: "Fin 2 \<notin> fst ` set example_plan_index
      \<or> card (silver_rates (rows (disk example_world paths_plans)) (Fin 2)) < 2" by simp
  from h3 c fewer_than_two_rates_unresolved [OF example_parsePlans example_parseZips h3 h4]
  show ?thesis by (intro conjI)
qed

subsection \<open>C5: equal rates count once\<close>

text \<open>
  C5. Rates are compared as parsed numbers, not as texts. If a Silver row \<open>r1\<close> has been
  read and a Silver row \<open>r2\<close> of the same rate area has a rate text that parses to the
  same number, then reading \<open>r2\<close> leaves the index as it is, and the number counts once in
  the ranking: it is one of the sorted rates of the area, these have no number twice, and
  it occurs among them exactly once.
\<close>

theorem equal_rate_counts_once:
  assumes "metal_level r1 = ''Silver''" "metal_level r2 = ''Silver''"
    and "parseInt (rate_area r1) = parseInt (rate_area r2)"
    and "parseFloat (rate r1) = parseFloat (rate r2)"
    and "r1 \<in> set rs"
  shows "parsePlans_row r2 (plansData rs []) = plansData rs []
         \<and> distinct (members (preprocessPlanRates (plansData rs [])) (parseInt (rate_area r2)))
         \<and> parseFloat (rate r2)
             \<in> set (members (preprocessPlanRates (plansData rs [])) (parseInt (rate_area r2)))
         \<and> count_list (members (preprocessPlanRates (plansData rs [])) (parseInt (rate_area r2)))
               (parseFloat (rate r2)) = 1"
proof -
  let ?a = "parseInt (rate_area r2)" and ?x = "parseFloat (rate r2)"
  let ?m = "members (preprocessPlanRates (plansData rs [])) ?a"
  have "parseFloat (rate r1) \<in> silver_rates rs (parseInt (rate_area r1))"
    using assms(1,5) by (auto simp: silver_rates_def)
  then have x: "?x \<in> silver_rates rs ?a" using assms(3,4) by simp
  then obtain s where s: "map_of (plansData rs []) ?a = Some s" "set s = silver_rates rs ?a"
      "distinct s"
    using plan_index_entry [of rs ?a] by auto
  with x have "Set_add ?x s = s" by (simp add: Set_add_def)
  with s(1) assms(2) have unchanged: "parsePlans_row r2 (plansData rs []) = plansData rs []"
    by (simp add: parsePlans_row_def Let_def update_triv)
  have m: "?m = Array_sort s"
    using s(1) by (simp add: members_def map_of_preprocessPlanRates)
  have d: "distinct ?m" using s(3) by (simp add: m)
  have i: "?x \<in> set ?m" using x s(2) by (simp add: m)
  from d i have "count_list ?m ?x = 1" by (rule count_list_distinct)
  with unchanged d i show ?thesis by simp
qed

text \<open>
  The rate texts \<open>100.00\<close> and \<open>100.0\<close> in rate area 3: after the first row the second
  changes nothing, and 100 is the one rate of the area.
\<close>

theorem equal_rate_counts_once_witness:
  "parseFloat ''100.00'' = parseFloat ''100.0''
   \<and> parsePlans_row \<lparr>zipcode = [], metal_level = ''Silver'', rate = ''100.0'', rate_area = ''3''\<rparr>
       (plansData [\<lparr>zipcode = [], metal_level = ''Silver'', rate = ''100.00'', rate_area = ''3''\<rparr>] [])
     = plansData [\<lparr>zipcode = [], metal_level = ''Silver'', rate = ''100.00'', rate_area = ''3''\<rparr>] []
   \<and> distinct (members (preprocessPlanRates
        (plansData [\<lparr>zipcode = [], metal_level = ''Silver'', rate = ''100.00'', rate_area = ''3''\<rparr>] []))
        (Fin 3))
   \<and> Fin 100 \<in> set (members (preprocessPlanRates
        (plansData [\<lparr>zipcode = [], metal_level = ''Silver'', rate = ''100.00'', rate_area = ''3''\<rparr>] []))
        (Fin 3))
   \<and> count_list (members (preprocessPlanRates
        (plansData [\<lparr>zipcode = [], metal_level = ''Silver'', rate = ''100.00'', rate_area = ''3''\<rparr>] []))
        (Fin 3)) (Fin 100) = 1"
proof -
  have p: "parseFloat ''100.00'' = parseFloat ''100.0''" by (simp add: parse_hundred)
  from p equal_rate_counts_once
    [of "\<lparr>zipcode = [], metal_level = ''Silver'', rate = ''100.00'', rate_area = ''3''\<rparr>"
        "\<lparr>zipcode = [], metal_level = ''Silver'', rate = ''100.0'', rate_area = ''3''\<rparr>"
        "[\<lparr>zipcode = [], metal_level = ''Silver'', rate = ''100.00'', rate_area = ''3''\<rparr>]"]
  show ?thesis by (simp add: parse_three parse_hundred)
qed

subsection \<open>C6: only Silver rows are indexed\<close>

text \<open>
  C6. When the plan file is read to its end, every key of the index that \<open>parsePlans\<close>
  resolves with is the rate area of some row whose metal level is the string \<open>Silver\<close>;
  a row with any other metal level leaves the index as it is; and the index is the one
  built from the Silver rows alone.
\<close>

theorem only_Silver_rows_indexed:
  assumes "fst (parsePlans p w) = Inr data"
  shows "(\<forall>a\<in>fst ` set data. \<exists>r\<in>set (rows (disk w p)).
            metal_level r = ''Silver'' \<and> parseInt (rate_area r) = a)
         \<and> (\<forall>r d. metal_level r \<noteq> ''Silver'' \<longrightarrow> parsePlans_row r d = d)
         \<and> data = plansData (filter (\<lambda>r. metal_level r = ''Silver'') (rows (disk w p))) []"
proof -
  have d: "data = plansData (rows (disk w p)) []" using parsePlans_Inr [OF assms] .
  have "\<exists>r\<in>set (rows (disk w p)). metal_level r = ''Silver'' \<and> parseInt (rate_area r) = a"
    if "a \<in> fst ` set data" for a
  proof -
    from that have "map_of data a \<noteq> None" by (simp add: map_of_eq_None_iff)
    then have "silver_rates (rows (disk w p)) a \<noteq> {}"
      using map_of_plansData_None [of "rows (disk w p)" "[]" a] d by simp
    then show ?thesis by (auto simp: silver_rates_def filter_empty_conv)
  qed
  then show ?thesis using d by (simp add: plansData_filter parsePlans_row_def)
qed

text \<open>
  The example plan file has a \<open>Gold\<close> row in rate area 7 and a \<open>silver\<close> row in rate area
  9; the index has the keys 7 and 2 only.
\<close>

theorem only_Silver_rows_indexed_witness:
  "fst (parsePlans paths_plans example_world) = Inr example_plan_index
   \<and> (\<exists>r\<in>set (rows (disk example_world paths_plans)).
         metal_level r = ''Silver'' \<and> parseInt (rate_area r) = Fin 2)
   \<and> map_of example_plan_index (Fin 9) = None
   \<and> example_plan_index
       = plansData (filter (\<lambda>r. metal_level r = ''Silver'') (rows (disk example_world paths_plans))) []"
proof -
  have k: "Fin 2 \<in> fst ` set example_plan_index" by (simp add: example_plan_index_def)
  have n: "map_of example_plan_index (Fin 9) = None" by (simp add: example_plan_index_def)
  from only_Silver_rows_indexed [OF example_parsePlans] k
  have "\<exists>r\<in>set (rows (disk example_world paths_plans)).
         metal_level r = ''Silver'' \<and> parseInt (rate_area r) = Fin 2"
    and "example_plan_index
       = plansData (filter (\<lambda>r. metal_level r = ''Silver'') (rows (disk example_world paths_plans))) []"
    by blast+
  with example_parsePlans n show ?thesis by (intro conjI)
qed

subsection \<open>C7: a failed read writes nothing\<close>

text \<open>
  C7. If one of the three input files fails to be read or parsed (the file stream or the
  parser stream raises an error, at once or after some rows, or a ZIP row makes the
  callback of \<open>parseZips\<close> throw), then the run writes no file and one report is added to
  the error stream.
\<close>

theorem failed_read_writes_nothing:
  assumes "ending (disk w paths_plans) \<noteq> End \<or> (\<exists>e. fst (parseZips paths_zips w) = Inl e)
           \<or> ending (disk w paths_slcp) \<noteq> End"
  shows "written (main w) = written w \<and> (\<exists>m. stderr (main w) = stderr w @ [m])"
proof -
  from assms have "ending (disk w paths_plans) \<noteq> End
      \<or> (\<exists>e. zipsData (rows (disk w paths_zips)) [] = Inl e)
      \<or> ending (disk w paths_zips) \<noteq> End \<or> ending (disk w paths_slcp) \<noteq> End"
    using parseZips_Inl [of paths_zips w] by blast
  from outcome_failure [OF this] obtain e where e: "outcome (disk w) = Inl e" ..
  then show ?thesis using stderr_main_failure [OF e] by (simp add: written_main)
qed

text \<open>The example inputs without the ZIP file.\<close>

theorem failed_read_writes_nothing_witness:
  "fst (parseZips paths_zips missing_zips_world)
     = Inl (Uncaught ''ENOENT: no such file or directory'')
   \<and> written (main missing_zips_world) = written missing_zips_world
   \<and> (\<exists>m. stderr (main missing_zips_world) = stderr missing_zips_world @ [m])"
proof -
  have h: "fst (parseZips paths_zips missing_zips_world)
      = Inl (Uncaught ''ENOENT: no such file or directory'')"
    by (simp add: parseZips_eq missing_zips_world_def no_file_def)
  then have "ending (disk missing_zips_world paths_plans) \<noteq> End
      \<or> (\<exists>e. fst (parseZips paths_zips missing_zips_world) = Inl e)
      \<or> ending (disk missing_zips_world paths_slcp) \<noteq> End" by simp
  then have "written (main missing_zips_world) = written missing_zips_world
      \<and> (\<exists>m. stderr (main missing_zips_world) = stderr missing_zips_world @ [m])"
    by (rule failed_read_writes_nothing)
  with h show ?thesis by (rule conjI)
qed

subsection \<open>C8: a rate that is not a number is indexed\<close>

text \<open>
  C8. Let the plan file be read to its end and let a Silver row of it have a rate text or
  a rate area text that parses to \<open>NaN\<close>. Then \<open>parsePlans\<close> still resolves (nothing is
  raised and no row is dropped), and the sorted rates stored under the row's parsed rate
  area contain the row's parsed rate: the \<open>NaN\<close> is in the index, as a rate or as a key.
\<close>

theorem NaN_is_indexed:
  assumes "ending (disk w p) = End" "r \<in> set (rows (disk w p))" "metal_level r = ''Silver''"
    and "parseFloat (rate r) = NaN \<or> parseInt (rate_area r) = NaN"
  shows "\<exists>data s. parsePlans p w = (Inr data, w)
           \<and> map_of (preprocessPlanRates data) (parseInt (rate_area r)) = Some s
           \<and> parseFloat (rate r) \<in> set s"
proof -
  let ?a = "parseInt (rate_area r)"
  have x: "parseFloat (rate r) \<in> silver_rates (rows (disk w p)) ?a"
    using assms(2,3) by (auto simp: silver_rates_def)
  then obtain s where s: "map_of (plansData (rows (disk w p)) []) ?a = Some s"
      "set s = silver_rates (rows (disk w p)) ?a"
    using plan_index_entry [of "rows (disk w p)" ?a] by auto
  with x assms(1) show ?thesis by (simp add: parsePlans_eq map_of_preprocessPlanRates)
qed

theorem NaN_is_indexed_witness:
  "parseFloat ''abc'' = NaN
   \<and> (\<exists>data s. parsePlans paths_plans nan_world = (Inr data, nan_world)
         \<and> map_of (preprocessPlanRates data) (parseInt ''1'') = Some s
         \<and> parseFloat ''abc'' \<in> set s)"
proof -
  let ?r = "\<lparr>zipcode = [], metal_level = ''Silver'', rate = ''abc'', rate_area = ''1''\<rparr>"
  have h1: "ending (disk nan_world paths_plans) = End" by simp
  have h2: "?r \<in> set (rows (disk nan_world paths_plans))" by (simp add: nan_plans_def)
  have h3: "metal_level ?r = ''Silver''" by simp
  have h4: "parseFloat (rate ?r) = NaN \<or> parseInt (rate_area ?r) = NaN" by (simp add: parse_abc)
  from NaN_is_indexed [OF h1 h2 h3 h4] parse_abc show ?thesis by simp
qed

subsection \<open>C9: a second run writes the same file\<close>

text \<open>
  C9. The file that a run leaves depends on the three input files only. Take two worlds
  with the same inputs. If the run in the first reports no failure, the runs in both
  leave the same output file, whatever files and console lines were there before. And a
  run started from the same files as the first, or from the files that the first run
  left, leaves the same files as the first run.
\<close>

theorem rerun_writes_same_output:
  assumes "disk w2 = disk w1"
  shows "(stderr (main w1) = stderr w1 \<longrightarrow>
            written (main w2) paths_output = written (main w1) paths_output)
         \<and> (written w2 = written w1 \<or> written w2 = written (main w1) \<longrightarrow>
            written (main w2) = written (main w1))"
proof (intro conjI impI)
  assume "stderr (main w1) = stderr w1"
  then obtain c where "outcome (disk w1) = Inr c"
    using stderr_main_failure [of w1] by (cases "outcome (disk w1)") auto
  with assms show "written (main w2) paths_output = written (main w1) paths_output"
    by (simp add: written_main)
next
  assume "written w2 = written w1 \<or> written w2 = written (main w1)"
  with assms show "written (main w2) = written (main w1)"
    by (auto simp: written_main split: sum.splits)
qed

text \<open>The example inputs, run twice.\<close>

theorem rerun_writes_same_output_witness:
  "stderr (main example_world) = stderr example_world
   \<and> written (main (main example_world)) paths_output = written (main example_world) paths_output
   \<and> written (main (main example_world)) = written (main example_world)"
proof -
  have d: "disk (main example_world) = disk example_world" by (rule disk_main)
  have e: "stderr (main example_world) = stderr example_world"
    using main_success [of example_world example_zip_index] by (simp add: example_zipsData)
  from rerun_writes_same_output [OF d] e show ?thesis by simp
qed

subsection \<open>C10: an empty request\<close>

text \<open>
  C10. If the plan file and the ZIP file are read to their ends and the request file ends
  with no row, the output file holds the header line \<open>zipcode,rate\<close> and nothing else:
  no row and no newline.
\<close>

theorem empty_request_header_only:
  assumes "fst (parsePlans paths_plans w) = Inr silverPlanData"
    and "fst (parseZips paths_zips w) = Inr zipData"
    and "rows (disk w paths_slcp) = []" "ending (disk w paths_slcp) = End"
  shows "written (main w) paths_output = Some ''zipcode,rate''"
  using assms
  by (simp add: main_def parsePlans_eq parseZips_eq processSLCSP_eq Let_def csvContent_def
      slcspData_def Object_entries_def split: ending.splits sum.splits)

theorem empty_request_header_only_witness:
  "rows (disk empty_request_world paths_slcp) = []
   \<and> written (main empty_request_world) paths_output = Some ''zipcode,rate''"
proof -
  have h1: "fst (parsePlans paths_plans empty_request_world) = Inr example_plan_index"
    by (simp add: parsePlans_eq empty_request_world_def example_plansData)
  have h2: "fst (parseZips paths_zips empty_request_world) = Inr example_zip_index"
    by (simp add: parseZips_eq empty_request_world_def example_zipsData)
  have h3: "rows (disk empty_request_world paths_slcp) = []"
    by (simp add: empty_request_world_def)
  have h4: "ending (disk empty_request_world paths_slcp) = End"
    by (simp add: empty_request_world_def)
  from h3 empty_request_header_only [OF h1 h2 h3 h4] show ?thesis by (intro conjI)
qed

end
